theory Spec2Isabelle
  imports Main "HOL-Library.Word"
begin

section \<open>Go values and configuration items\<close>

text \<open>
  An \<^verbatim>\<open>error\<close> is represented by its message. A Go string is its sequence of
  bytes (\<^typ>\<open>string\<close>).
\<close>

type_synonym error = string

text \<open>
  The dynamic type of a value held in an \<^verbatim>\<open>interface{}\<close>. The first eleven are the
  types \<^verbatim>\<open>initializeFlags\<close> asserts on; the rest stand for "anything else".
\<close>

datatype go_type =
    TString | TInt | TInt8 | TInt16 | TInt32
  | TUint | TUint8 | TUint16 | TUint32
  | TBool | TStringSlice
  | TInt64 | TUint64 | TStruct string | TNil

text \<open>
  A value of type \<^verbatim>\<open>interface{}\<close>: the dynamic type together with the value.
  \<^verbatim>\<open>int\<close> and \<^verbatim>\<open>uint\<close> are 64 bits wide. A struct carries its type name and its
  fields.
\<close>

datatype go_value =
    GoString string
  | GoInt "64 word" | GoInt8 "8 word" | GoInt16 "16 word" | GoInt32 "32 word"
  | GoUint "64 word" | GoUint8 "8 word" | GoUint16 "16 word" | GoUint32 "32 word"
  | GoBool bool
  | GoStringSlice "string list"
  | GoInt64 "64 word" | GoUint64 "64 word"
  | GoStruct string "(string \<times> go_value) list"
  | GoNil

fun type_of :: "go_value \<Rightarrow> go_type" where
  "type_of (GoString _) = TString"
| "type_of (GoInt _) = TInt"
| "type_of (GoInt8 _) = TInt8"
| "type_of (GoInt16 _) = TInt16"
| "type_of (GoInt32 _) = TInt32"
| "type_of (GoUint _) = TUint"
| "type_of (GoUint8 _) = TUint8"
| "type_of (GoUint16 _) = TUint16"
| "type_of (GoUint32 _) = TUint32"
| "type_of (GoBool _) = TBool"
| "type_of (GoStringSlice _) = TStringSlice"
| "type_of (GoInt64 _) = TInt64"
| "type_of (GoUint64 _) = TUint64"
| "type_of (GoStruct n _) = TStruct n"
| "type_of GoNil = TNil"

section \<open>UTF-8 decoding and the regular expression of setupEnv\<close>

text \<open>
  \<^verbatim>\<open>regexp\<close> reads its input rune by rune with \<^verbatim>\<open>utf8.DecodeRuneInString\<close>.
  \<^verbatim>\<open>first_info b\<close> is the entry of the decoder's table for a leading byte \<^verbatim>\<open>b\<close>:
  the size of the sequence and the range accepted for its second byte; \<^verbatim>\<open>None\<close> for an
  ASCII byte and for a byte that starts no sequence, both of width 1.
\<close>

definition first_info :: "nat \<Rightarrow> (nat \<times> nat \<times> nat) option" where
  "first_info b =
     (if b < 0xC2 then None
      else if b \<le> 0xDF then Some (2, 0x80, 0xBF)
      else if b = 0xE0 then Some (3, 0xA0, 0xBF)
      else if b \<le> 0xEC then Some (3, 0x80, 0xBF)
      else if b = 0xED then Some (3, 0x80, 0x9F)
      else if b \<le> 0xEF then Some (3, 0x80, 0xBF)
      else if b = 0xF0 then Some (4, 0x90, 0xBF)
      else if b \<le> 0xF3 then Some (4, 0x80, 0xBF)
      else if b = 0xF4 then Some (4, 0x80, 0x8F)
      else None)"

definition continuation :: "nat \<Rightarrow> bool" where
  "continuation b = (0x80 \<le> b \<and> b \<le> 0xBF)"

text \<open>The width of the first rune of \<^verbatim>\<open>s\<close>; an invalid byte is a rune of width 1.\<close>

definition DecodeRuneInString_width :: "string \<Rightarrow> nat" where
  "DecodeRuneInString_width s =
     (case s of
        [] \<Rightarrow> 0
      | c # cs \<Rightarrow>
          (case first_info (of_char c) of
             None \<Rightarrow> 1
           | Some (sz, lo, hi) \<Rightarrow>
               if length s < sz then 1
               else if of_char (s ! 1) < lo \<or> hi < of_char (s ! 1) then 1
               else if sz \<le> 2 then 2
               else if \<not> continuation (of_char (s ! 2)) then 1
               else if sz \<le> 3 then 3
               else if \<not> continuation (of_char (s ! 3)) then 1
               else 4))"

text \<open>
  \<^verbatim>\<open>re := regexp.MustCompile(`[^a-z0-9]`)\<close>: the class matches one rune, any rune but
  the ASCII lower-case letters and digits. \<^verbatim>\<open>kept c\<close> holds of the bytes the class
  does not match.
\<close>

definition kept :: "char \<Rightarrow> bool" where
  "kept c = ((97 \<le> (of_char c :: nat) \<and> (of_char c :: nat) \<le> 122)
           \<or> (48 \<le> (of_char c :: nat) \<and> (of_char c :: nat) \<le> 57))"

lemma DecodeRuneInString_width_pos: "0 < DecodeRuneInString_width (c # cs)"
  by (simp add: DecodeRuneInString_width_def split: option.splits prod.splits)

text \<open>
  \<^verbatim>\<open>re.ReplaceAllString(src, repl)\<close> for this \<^verbatim>\<open>re\<close>: runes the class does not match
  are copied, every matched rune is replaced by \<^verbatim>\<open>repl\<close> (which holds no \<^verbatim>\<open>$\<close>).
\<close>

function ReplaceAllString :: "string \<Rightarrow> string \<Rightarrow> string" where
  "ReplaceAllString [] repl = []"
| "ReplaceAllString (c # cs) repl =
     (if kept c then c # ReplaceAllString cs repl
      else repl @ ReplaceAllString (drop (DecodeRuneInString_width (c # cs)) (c # cs)) repl)"
  by pat_completeness auto
termination
proof (relation "measure (\<lambda>(src, repl). length src)")
  show "wf (measure (\<lambda>(src, repl). length src))" by simp
next
  fix c cs repl
  show "((cs, repl), c # cs, repl) \<in> measure (\<lambda>(src, repl). length src)" by simp
next
  fix c cs repl
  have "0 < DecodeRuneInString_width (c # cs)" by (rule DecodeRuneInString_width_pos)
  then show "((drop (DecodeRuneInString_width (c # cs)) (c # cs), repl), c # cs, repl)
             \<in> measure (\<lambda>(src, repl). length src)"
    by simp
qed

section \<open>The collaborators: flag engine and settings store\<close>

text \<open>
  Modelled from the spec: the flag-parsing engine (\<^verbatim>\<open>pflag\<close>) and the settings-merge
  engine (\<^verbatim>\<open>viper\<close>) are external libraries, given here at the interface of the
  spec's section 6: register-flag, parse, lookup, set-default, bind-environment,
  bind-flag and get-resolved-value. Their behaviour is the one the spec states: a later
  registration or binding under a name replaces the earlier (section 4.1), bind-flag
  fails only for a flag that was never registered (4.3), bind-environment fails only for
  an empty key (4.4), and a value is resolved by the precedence of section 4.6. Every
  call of the core to a collaborator or to a callback of the caller is also recorded, in
  order, as an \<^verbatim>\<open>event\<close>; the record is no part of the program.
\<close>

text \<open>The two variables that \<^verbatim>\<open>pflag.StringVar\<close> is given a pointer to.\<close>

datatype path_var = ConfigPathVar | SecretsPathVar

record Flag =
  DefValue :: go_value
  Usage :: string
  Changed :: bool
  Text :: string
  Target :: "path_var option"

datatype event =
    EvRegisterFlag string go_value string
  | EvParse
  | EvSetDefault string go_value
  | EvBindEnv string string
  | EvBindPFlag string "string option"
  | EvValidate string
  | EvFailFunc error
  | EvWarnFunc string
  | EvLogPrint string

text \<open>
  The world outside the package: the flag set \<^verbatim>\<open>pflag.CommandLine\<close>, the command line
  (flag name and text of each argument), the process environment, the layers of the
  store (defaults, environment bindings, flag bindings, the values read from the secrets
  and the configuration file), and the calls made so far.
\<close>

record world =
  flags :: "string \<rightharpoonup> Flag"
  args :: "(string \<times> string) list"
  environ :: "string \<rightharpoonup> string"
  v_defaults :: "string \<rightharpoonup> go_value"
  v_env :: "string \<rightharpoonup> string"
  v_pflags :: "string \<rightharpoonup> string"
  v_secrets :: "string \<rightharpoonup> go_value"
  v_config :: "string \<rightharpoonup> go_value"
  events :: "event list"

text \<open>
  Modelled from the spec: \<^verbatim>\<open>auconfigapi.ConfigItem\<close> is declared in another repository;
  the fields are those of the spec's section 3. A validator maps the key to an error or
  nil and may read the store.
\<close>

record ConfigItem =
  Key :: string
  EnvName :: string
  FlagName :: string
  Default :: go_value
  Description :: string
  Validate :: "world \<Rightarrow> string \<Rightarrow> error option"

text \<open>
  Modelled from the spec: \<^verbatim>\<open>auconfigapi.ConfigNeedsNoValidation\<close>, the no-op validator.
\<close>

definition ConfigNeedsNoValidation :: "world \<Rightarrow> string \<Rightarrow> error option" where
  "ConfigNeedsNoValidation w key = None"

text \<open>
  A value of type \<^verbatim>\<open>ConfigFailFunc\<close> is the package's own \<^verbatim>\<open>fail\<close> or a function of
  the caller. A call of the caller's function is an event; the function tells whether
  the call returns (\<^verbatim>\<open>None\<close>) or leaves with a panic value. Likewise for
  \<^verbatim>\<open>ConfigWarnFunc\<close>, whose functions return (\<^verbatim>\<open>warn: string \<rightarrow> void\<close>).
\<close>

datatype ConfigFailFunc = PkgFail | CallerFail "error \<Rightarrow> error option"

datatype ConfigWarnFunc = PkgWarn | CallerWarn

text \<open>A call returns with a state, or panics with a value in a state.\<close>

datatype 'a result = Done 'a | Panic error 'a

fun state_of :: "'a result \<Rightarrow> 'a" where
  "state_of (Done s) = s"
| "state_of (Panic e s) = s"

text \<open>
  The package-level variables of \<^verbatim>\<open>setup.go\<close>, and the world. The slice
  \<^verbatim>\<open>configItems\<close> is the caller's slice (\<^verbatim>\<open>configItems = items\<close> shares its array): the
  list is the contents of that array, and a write to an element would be an update of the
  list. The no-flag set is the map \<^verbatim>\<open>configItemKeysWithNoFlags\<close>; a key is in it when the
  map has an entry for it.
\<close>

record state =
  configPath :: string
  secretsPath :: string
  failFunction :: ConfigFailFunc
  warnFunction :: ConfigWarnFunc
  configItems :: "ConfigItem list"
  configItemKeysWithNoFlags :: "string \<rightharpoonup> bool"
  ext :: world

definition emit :: "event \<Rightarrow> state \<Rightarrow> state" where
  "emit e s = s\<lparr>ext := (ext s)\<lparr>events := events (ext s) @ [e]\<rparr>\<rparr>"

definition write_var :: "path_var option \<Rightarrow> string \<Rightarrow> state \<Rightarrow> state" where
  "write_var p v s =
     (case p of
        None \<Rightarrow> s
      | Some ConfigPathVar \<Rightarrow> s\<lparr>configPath := v\<rparr>
      | Some SecretsPathVar \<Rightarrow> s\<lparr>secretsPath := v\<rparr>)"

text \<open>
  Registering a flag: a later registration under the same name overwrites the earlier
  (section 4.1 of the spec). The flag's kind is the type of its default.
\<close>

definition pflag_Var :: "string \<Rightarrow> go_value \<Rightarrow> string \<Rightarrow> path_var option \<Rightarrow> state \<Rightarrow> state" where
  "pflag_Var name v usage target s =
     emit (EvRegisterFlag name v usage)
       (s\<lparr>ext := (ext s)\<lparr>flags := (flags (ext s))
          (name \<mapsto> \<lparr>DefValue = v, Usage = usage, Changed = False, Text = [], Target = target\<rparr>)\<rparr>\<rparr>)"

definition pflag_StringVar :: "path_var \<Rightarrow> string \<Rightarrow> string \<Rightarrow> string \<Rightarrow> state \<Rightarrow> state" where
  "pflag_StringVar p name v usage s =
     pflag_Var name (GoString v) usage (Some p) (write_var (Some p) v s)"

definition pflag_String :: "string \<Rightarrow> string \<Rightarrow> string \<Rightarrow> state \<Rightarrow> state" where
  "pflag_String name v usage = pflag_Var name (GoString v) usage None"

definition pflag_Int :: "string \<Rightarrow> 64 word \<Rightarrow> string \<Rightarrow> state \<Rightarrow> state" where
  "pflag_Int name v usage = pflag_Var name (GoInt v) usage None"

definition pflag_Int8 :: "string \<Rightarrow> 8 word \<Rightarrow> string \<Rightarrow> state \<Rightarrow> state" where
  "pflag_Int8 name v usage = pflag_Var name (GoInt8 v) usage None"

definition pflag_Int16 :: "string \<Rightarrow> 16 word \<Rightarrow> string \<Rightarrow> state \<Rightarrow> state" where
  "pflag_Int16 name v usage = pflag_Var name (GoInt16 v) usage None"

definition pflag_Int32 :: "string \<Rightarrow> 32 word \<Rightarrow> string \<Rightarrow> state \<Rightarrow> state" where
  "pflag_Int32 name v usage = pflag_Var name (GoInt32 v) usage None"

definition pflag_Uint :: "string \<Rightarrow> 64 word \<Rightarrow> string \<Rightarrow> state \<Rightarrow> state" where
  "pflag_Uint name v usage = pflag_Var name (GoUint v) usage None"

definition pflag_Uint8 :: "string \<Rightarrow> 8 word \<Rightarrow> string \<Rightarrow> state \<Rightarrow> state" where
  "pflag_Uint8 name v usage = pflag_Var name (GoUint8 v) usage None"

definition pflag_Uint16 :: "string \<Rightarrow> 16 word \<Rightarrow> string \<Rightarrow> state \<Rightarrow> state" where
  "pflag_Uint16 name v usage = pflag_Var name (GoUint16 v) usage None"

definition pflag_Uint32 :: "string \<Rightarrow> 32 word \<Rightarrow> string \<Rightarrow> state \<Rightarrow> state" where
  "pflag_Uint32 name v usage = pflag_Var name (GoUint32 v) usage None"

definition pflag_Bool :: "string \<Rightarrow> bool \<Rightarrow> string \<Rightarrow> state \<Rightarrow> state" where
  "pflag_Bool name v usage = pflag_Var name (GoBool v) usage None"

definition pflag_StringSlice :: "string \<Rightarrow> string list \<Rightarrow> string \<Rightarrow> state \<Rightarrow> state" where
  "pflag_StringSlice name v usage = pflag_Var name (GoStringSlice v) usage None"

text \<open>
  Parsing the command line: an argument sets its flag (and the variable the flag points
  to); an argument that names no registered flag ends the process.
\<close>

fun parse_args :: "(string \<times> string) list \<Rightarrow> state \<Rightarrow> state result" where
  "parse_args [] s = Done s"
| "parse_args ((name, arg) # rest) s =
     (case flags (ext s) name of
        None \<Rightarrow> Panic (''unknown flag: --'' @ name) s
      | Some f \<Rightarrow>
          parse_args rest
            (write_var (Target f) arg
               (s\<lparr>ext := (ext s)\<lparr>flags := (flags (ext s))
                  (name \<mapsto> f\<lparr>Changed := True, Text := arg\<rparr>)\<rparr>\<rparr>)))"

definition pflag_Parse :: "state \<Rightarrow> state result" where
  "pflag_Parse s = parse_args (args (ext s)) (emit EvParse s)"

text \<open>A flag handle is the name of a registered flag; \<^verbatim>\<open>None\<close> is the nil handle.\<close>

definition pflag_Lookup :: "string \<Rightarrow> state \<Rightarrow> string option" where
  "pflag_Lookup name s = (if flags (ext s) name = None then None else Some name)"

definition viper_SetDefault :: "string \<Rightarrow> go_value \<Rightarrow> state \<Rightarrow> state" where
  "viper_SetDefault key v s =
     emit (EvSetDefault key v)
       (s\<lparr>ext := (ext s)\<lparr>v_defaults := (v_defaults (ext s))(key \<mapsto> v)\<rparr>\<rparr>)"

text \<open>bind-environment fails only when the key is empty (section 4.4 of the spec).\<close>

definition viper_BindEnv :: "string \<Rightarrow> string \<Rightarrow> state \<Rightarrow> error option \<times> state" where
  "viper_BindEnv key envName s =
     (if key = [] then (Some ''missing key to bind to'', emit (EvBindEnv key envName) s)
      else (None, emit (EvBindEnv key envName)
                    (s\<lparr>ext := (ext s)\<lparr>v_env := (v_env (ext s))(key \<mapsto> envName)\<rparr>\<rparr>)))"

text \<open>bind-flag fails only when the flag was never registered (section 4.3).\<close>

definition viper_BindPFlag :: "string \<Rightarrow> string option \<Rightarrow> state \<Rightarrow> error option \<times> state" where
  "viper_BindPFlag key flag s =
     (case flag of
        None \<Rightarrow> (Some (''flag for '' @ key @ '' is nil''), emit (EvBindPFlag key flag) s)
      | Some name \<Rightarrow>
          (None, emit (EvBindPFlag key flag)
                   (s\<lparr>ext := (ext s)\<lparr>v_pflags := (v_pflags (ext s))(key \<mapsto> name)\<rparr>\<rparr>)))"

text \<open>
  get-resolved-value, with the precedence of section 4.6: a flag set on the command
  line, the bound environment variable, the secrets file, the configuration file, the
  default. A value that comes as text is given as a string.
\<close>

definition flag_value :: "world \<Rightarrow> string \<Rightarrow> go_value option" where
  "flag_value w key =
     (case v_pflags w key of
        None \<Rightarrow> None
      | Some name \<Rightarrow>
          (case flags w name of
             None \<Rightarrow> None
           | Some f \<Rightarrow> if Changed f then Some (GoString (Text f)) else None))"

definition env_value :: "world \<Rightarrow> string \<Rightarrow> go_value option" where
  "env_value w key =
     (case v_env w key of
        None \<Rightarrow> None
      | Some name \<Rightarrow> map_option GoString (environ w name))"

definition resolved :: "world \<Rightarrow> string \<Rightarrow> go_value option" where
  "resolved w key =
     (case flag_value w key of
        Some v \<Rightarrow> Some v
      | None \<Rightarrow>
          (case env_value w key of
             Some v \<Rightarrow> Some v
           | None \<Rightarrow>
               (case v_secrets w key of
                  Some v \<Rightarrow> Some v
                | None \<Rightarrow>
                    (case v_config w key of
                       Some v \<Rightarrow> Some v
                     | None \<Rightarrow> v_defaults w key))))"

section \<open>setup.go\<close>

text \<open>\<^verbatim>\<open>func fail(err error) { panic(err) }\<close> and \<^verbatim>\<open>func warn(message string) { log.Print(message) }\<close>.\<close>

definition fail :: "error \<Rightarrow> state \<Rightarrow> state result" where
  "fail err s = Panic err s"

definition warn :: "string \<Rightarrow> state \<Rightarrow> state" where
  "warn message s = emit (EvLogPrint message) s"

text \<open>Calls through the variables \<^verbatim>\<open>failFunction\<close> and \<^verbatim>\<open>warnFunction\<close>.\<close>

definition call_failFunction :: "error \<Rightarrow> state \<Rightarrow> state result" where
  "call_failFunction err s =
     (case failFunction s of
        PkgFail \<Rightarrow> fail err s
      | CallerFail f \<Rightarrow>
          (case f err of
             None \<Rightarrow> Done (emit (EvFailFunc err) s)
           | Some v \<Rightarrow> Panic v (emit (EvFailFunc err) s)))"

definition call_warnFunction :: "string \<Rightarrow> state \<Rightarrow> state" where
  "call_warnFunction message s =
     (case warnFunction s of
        PkgWarn \<Rightarrow> warn message s
      | CallerWarn \<Rightarrow> emit (EvWarnFunc message) s)"

text \<open>Sequencing: a panic leaves the rest undone.\<close>

fun and_then :: "'a result \<Rightarrow> ('a \<Rightarrow> 'a result) \<Rightarrow> 'a result" where
  "and_then (Done s) f = f s"
| "and_then (Panic e s) f = Panic e s"

text \<open>The body of the loop of \<^verbatim>\<open>initializeFlags\<close>, for one item.\<close>

definition initializeFlags_item :: "ConfigItem \<Rightarrow> state \<Rightarrow> state" where
  "initializeFlags_item item s =
     (let flagname = (if FlagName item = [] then Key item else FlagName item) in
      case Default item of
        GoString _ \<Rightarrow> pflag_String flagname [] (Description item) s
      | GoInt _ \<Rightarrow> pflag_Int flagname 0 (Description item) s
      | GoInt8 _ \<Rightarrow> pflag_Int8 flagname 0 (Description item) s
      | GoInt16 _ \<Rightarrow> pflag_Int16 flagname 0 (Description item) s
      | GoInt32 _ \<Rightarrow> pflag_Int32 flagname 0 (Description item) s
      | GoUint _ \<Rightarrow> pflag_Uint flagname 0 (Description item) s
      | GoUint8 _ \<Rightarrow> pflag_Uint8 flagname 0 (Description item) s
      | GoUint16 _ \<Rightarrow> pflag_Uint16 flagname 0 (Description item) s
      | GoUint32 _ \<Rightarrow> pflag_Uint32 flagname 0 (Description item) s
      | GoBool _ \<Rightarrow> pflag_Bool flagname False (Description item) s
      | GoStringSlice _ \<Rightarrow> pflag_StringSlice flagname [] (Description item) s
      | _ \<Rightarrow>
          call_warnFunction
            (''unsupported data type for config item '' @ Key item
               @ '', cannot initialize command line argument, skipping this key'')
            (s\<lparr>configItemKeysWithNoFlags := (configItemKeysWithNoFlags s)(Key item \<mapsto> True)\<rparr>))"

fun initializeFlags_loop :: "ConfigItem list \<Rightarrow> state \<Rightarrow> state" where
  "initializeFlags_loop [] s = s"
| "initializeFlags_loop (item # items) s = initializeFlags_loop items (initializeFlags_item item s)"

definition initializeFlags :: "string \<Rightarrow> string \<Rightarrow> state \<Rightarrow> state" where
  "initializeFlags defaultConfigPath defaultSecretsPath s =
     (let s1 = pflag_StringVar ConfigPathVar ''config-path'' defaultConfigPath
                 ''config file path without file name'' s;
          s2 = pflag_StringVar SecretsPathVar ''secrets-path'' defaultSecretsPath
                 ''secrets file path without file name'' s1
      in initializeFlags_loop (configItems s2) s2)"

definition bindFlag :: "string \<Rightarrow> string \<Rightarrow> state \<Rightarrow> state result" where
  "bindFlag key flagname s =
     (case viper_BindPFlag key (pflag_Lookup flagname s) s of
        (None, s') \<Rightarrow> Done s'
      | (Some err, s') \<Rightarrow>
          call_failFunction
            (''Fatal error could not bind configuration flag '' @ key @ '': '' @ err @ [CHR 0x0A])
            s')"

fun setupFlags_loop :: "ConfigItem list \<Rightarrow> state \<Rightarrow> state result" where
  "setupFlags_loop [] s = Done s"
| "setupFlags_loop (item # items) s =
     (if configItemKeysWithNoFlags s (Key item) = None then
        (let flagname = (if FlagName item = [] then Key item else FlagName item) in
         and_then (bindFlag (Key item) flagname s) (setupFlags_loop items))
      else setupFlags_loop items s)"

definition setupFlags :: "state \<Rightarrow> state result" where
  "setupFlags s = setupFlags_loop (configItems s) s"

fun setupDefaults_loop :: "ConfigItem list \<Rightarrow> state \<Rightarrow> state" where
  "setupDefaults_loop [] s = s"
| "setupDefaults_loop (item # items) s =
     setupDefaults_loop items (viper_SetDefault (Key item) (Default item) s)"

definition setupDefaults :: "state \<Rightarrow> state" where
  "setupDefaults s = setupDefaults_loop (configItems s) s"

text \<open>
  The body of the loop of \<^verbatim>\<open>setupEnv\<close>. The loop variable \<^verbatim>\<open>item\<close> is a copy of the
  element of the slice (\<^verbatim>\<open>for _, item := range configItems\<close> over a slice of structs):
  the assignment to \<^verbatim>\<open>item.EnvName\<close> changes the copy, which the call of
  \<^verbatim>\<open>viper.BindEnv\<close> reads; the error of the call is dropped.
\<close>

definition setupEnv_item :: "ConfigItem \<Rightarrow> state \<Rightarrow> state" where
  "setupEnv_item item0 s =
     (let item = (if EnvName item0 = []
                  then item0\<lparr>EnvName := ''CONFIG_'' @ ReplaceAllString (Key item0) ''_''\<rparr>
                  else item0)
      in snd (viper_BindEnv (Key item) (EnvName item) s))"

fun setupEnv_loop :: "ConfigItem list \<Rightarrow> state \<Rightarrow> state" where
  "setupEnv_loop [] s = s"
| "setupEnv_loop (item # items) s = setupEnv_loop items (setupEnv_item item s)"

definition setupEnv :: "state \<Rightarrow> state" where
  "setupEnv s = setupEnv_loop (configItems s) s"

text \<open>
  A validator reads the store, not the record of calls, which is no part of the program.
\<close>

definition store_view :: "world \<Rightarrow> world" where
  "store_view w = w\<lparr>events := []\<rparr>"

text \<open>
  \<^verbatim>\<open>validate\<close> calls the package's \<^verbatim>\<open>fail\<close>, not the variable \<^verbatim>\<open>failFunction\<close>.
\<close>

fun validate_loop :: "ConfigItem list \<Rightarrow> state \<Rightarrow> state result" where
  "validate_loop [] s = Done s"
| "validate_loop (item # items) s =
     (let s1 = emit (EvValidate (Key item)) s in
      case Validate item (store_view (ext s)) (Key item) of
        None \<Rightarrow> validate_loop items s1
      | Some err \<Rightarrow> and_then (fail err s1) (validate_loop items))"

definition validate :: "state \<Rightarrow> state result" where
  "validate s = validate_loop (configItems s) s"

definition SetupDefaultsOnly :: "ConfigItem list \<Rightarrow> ConfigFailFunc \<Rightarrow> ConfigWarnFunc \<Rightarrow> state \<Rightarrow> state" where
  "SetupDefaultsOnly items failFunc warnFunc s =
     setupDefaults (s\<lparr>configItems := items, failFunction := failFunc, warnFunction := warnFunc\<rparr>)"

definition SetupWithOverriddenConfigPath ::
  "ConfigItem list \<Rightarrow> ConfigFailFunc \<Rightarrow> ConfigWarnFunc \<Rightarrow> string \<Rightarrow> string \<Rightarrow> state \<Rightarrow> state result" where
  "SetupWithOverriddenConfigPath items failFunc warnFunc defaultConfigPath defaultSecretsPath s =
     (let s1 = s\<lparr>configItems := items, failFunction := failFunc, warnFunction := warnFunc\<rparr>;
          s2 = initializeFlags defaultConfigPath defaultSecretsPath s1
      in and_then (pflag_Parse s2) (\<lambda>s3. setupFlags (setupEnv (setupDefaults s3))))"

definition Setup :: "ConfigItem list \<Rightarrow> ConfigFailFunc \<Rightarrow> ConfigWarnFunc \<Rightarrow> state \<Rightarrow> state result" where
  "Setup items failFunc warnFunc s = SetupWithOverriddenConfigPath items failFunc warnFunc [] [] s"

text \<open>
  Modelled from the spec: \<^verbatim>\<open>performLoad\<close> is not among the sources. By the spec's
  sections 2 and 5 it is the step that reads the configuration and secrets files into the
  store, and the process-wide state is written only during setup; so it is a parameter
  here, a function from the state to a new world or a panic.
\<close>

definition Load :: "(state \<Rightarrow> world result) \<Rightarrow> state \<Rightarrow> state result" where
  "Load performLoad s =
     (case performLoad s of
        Panic e w \<Rightarrow> Panic e (s\<lparr>ext := w\<rparr>)
      | Done w \<Rightarrow> validate (s\<lparr>ext := w\<rparr>))"

text \<open>The variables of the package and the world when the process starts.\<close>

definition initial_world :: "(string \<times> string) list \<Rightarrow> (string \<rightharpoonup> string) \<Rightarrow> world" where
  "initial_world cmdline env =
     \<lparr>flags = Map.empty, args = cmdline, environ = env, v_defaults = Map.empty,
      v_env = Map.empty, v_pflags = Map.empty, v_secrets = Map.empty, v_config = Map.empty,
      events = []\<rparr>"

definition initial_state :: "(string \<times> string) list \<Rightarrow> (string \<rightharpoonup> string) \<Rightarrow> state" where
  "initial_state cmdline env =
     \<lparr>configPath = [], secretsPath = [], failFunction = PkgFail, warnFunction = PkgWarn,
      configItems = [], configItemKeysWithNoFlags = Map.empty, ext = initial_world cmdline env\<rparr>"

text \<open>\<^verbatim>\<open>ConfigItemProfile\<close>, the item the package offers for the key \<^verbatim>\<open>profiles\<close>.\<close>

definition ConfigItemProfile :: ConfigItem where
  "ConfigItemProfile =
     \<lparr>Key = ''profiles'', EnvName = [], FlagName = [], Default = GoStringSlice [],
      Description = ''list of profiles, separate by spaces in environment or command line parameters'',
      Validate = ConfigNeedsNoValidation\<rparr>"

section \<open>Notions of the spec, for stating the claims\<close>

text \<open>
  Nothing in this section translates a function of the sources: these are the notions the
  spec uses, against which the functions above are compared.
\<close>

subsection \<open>The derived environment name\<close>

text \<open>
  The characters of a key are its runes, each as the bytes that encode it (an invalid
  byte is a character of its own).
\<close>

function runes :: "string \<Rightarrow> string list" where
  "runes [] = []"
| "runes (c # cs) =
     take (DecodeRuneInString_width (c # cs)) (c # cs)
       # runes (drop (DecodeRuneInString_width (c # cs)) (c # cs))"
  by pat_completeness auto
termination
proof (relation "measure length")
  show "wf (measure length)" by simp
next
  fix c :: char and cs :: string
  have "0 < DecodeRuneInString_width (c # cs)" by (rule DecodeRuneInString_width_pos)
  then show "(drop (DecodeRuneInString_width (c # cs)) (c # cs), c # cs) \<in> measure length"
    by simp
qed

text \<open>
  Section 4.4: "replace every character outside \<^verbatim>\<open>[a-z0-9]\<close> with \<^verbatim>\<open>_\<close>, and prefix with
  \<^verbatim>\<open>CONFIG_\<close>".
\<close>

definition spec_replace :: "string \<Rightarrow> string" where
  "spec_replace r = (case r of [c] \<Rightarrow> if kept c then [c] else ''_'' | _ \<Rightarrow> ''_'')"

definition spec_env_name :: "string \<Rightarrow> string" where
  "spec_env_name key = ''CONFIG_'' @ concat (map spec_replace (runes key))"

definition uppercase :: "char \<Rightarrow> bool" where
  "uppercase c = (65 \<le> (of_char c :: nat) \<and> (of_char c :: nat) \<le> 90)"

subsection \<open>Effective names, supported kinds, zero values\<close>

text \<open>
  Section 3: the environment name is \<^verbatim>\<open>envName\<close>, "if empty, derived"; the flag name is
  \<^verbatim>\<open>flagName\<close>, "if empty, defaults to \<^verbatim>\<open>key\<close>".
\<close>

definition effective_env_name :: "ConfigItem \<Rightarrow> string" where
  "effective_env_name item = (if EnvName item = [] then spec_env_name (Key item) else EnvName item)"

definition effective_flag_name :: "ConfigItem \<Rightarrow> string" where
  "effective_flag_name item = (if FlagName item = [] then Key item else FlagName item)"

text \<open>
  Section 4.2: the supported kinds are "string, signed integers (8/16/32/default-width),
  unsigned integers (8/16/32/default-width), boolean, sequence-of-strings"; the neutral
  default is the zero value of the kind, "empty string / zero / false / empty sequence".
\<close>

fun supported :: "go_type \<Rightarrow> bool" where
  "supported TString = True"
| "supported TInt = True"
| "supported TInt8 = True"
| "supported TInt16 = True"
| "supported TInt32 = True"
| "supported TUint = True"
| "supported TUint8 = True"
| "supported TUint16 = True"
| "supported TUint32 = True"
| "supported TBool = True"
| "supported TStringSlice = True"
| "supported _ = False"

fun zero_value :: "go_type \<Rightarrow> go_value" where
  "zero_value TString = GoString []"
| "zero_value TInt = GoInt 0"
| "zero_value TInt8 = GoInt8 0"
| "zero_value TInt16 = GoInt16 0"
| "zero_value TInt32 = GoInt32 0"
| "zero_value TUint = GoUint 0"
| "zero_value TUint8 = GoUint8 0"
| "zero_value TUint16 = GoUint16 0"
| "zero_value TUint32 = GoUint32 0"
| "zero_value TBool = GoBool False"
| "zero_value TStringSlice = GoStringSlice []"
| "zero_value TInt64 = GoInt64 0"
| "zero_value TUint64 = GoUint64 0"
| "zero_value (TStruct n) = GoStruct n []"
| "zero_value TNil = GoNil"

definition has_flag :: "ConfigItem \<Rightarrow> bool" where
  "has_flag item = supported (type_of (Default item))"

text \<open>The last item of a registry whose name (its key, its flag name) is \<open>k\<close>.\<close>

definition last_with :: "(ConfigItem \<Rightarrow> string) \<Rightarrow> string \<Rightarrow> ConfigItem list \<Rightarrow> ConfigItem option" where
  "last_with f k items = find (\<lambda>j. f j = k) (rev items)"

subsection \<open>The calls of a pass, and the bindings it leaves\<close>

text \<open>The calls made between a state and a later one, and kinds of calls.\<close>

definition new_events :: "state \<Rightarrow> state \<Rightarrow> event list" where
  "new_events s s' = drop (length (events (ext s))) (events (ext s'))"

fun is_callback :: "event \<Rightarrow> bool" where
  "is_callback (EvFailFunc _) = True"
| "is_callback (EvWarnFunc _) = True"
| "is_callback (EvLogPrint _) = True"
| "is_callback _ = False"

fun is_warning :: "event \<Rightarrow> bool" where
  "is_warning (EvWarnFunc _) = True"
| "is_warning (EvLogPrint _) = True"
| "is_warning _ = False"

fun is_registration :: "event \<Rightarrow> bool" where
  "is_registration (EvRegisterFlag _ _ _) = True"
| "is_registration _ = False"

text \<open>The one call each pass makes for an item.\<close>

definition default_event :: "ConfigItem \<Rightarrow> event" where
  "default_event item = EvSetDefault (Key item) (Default item)"

definition env_event :: "ConfigItem \<Rightarrow> event" where
  "env_event item = EvBindEnv (Key item) (effective_env_name item)"

definition bind_event :: "ConfigItem \<Rightarrow> event" where
  "bind_event item = EvBindPFlag (Key item) (Some (effective_flag_name item))"

definition warning_for :: "string \<Rightarrow> string" where
  "warning_for key = ''unsupported data type for config item '' @ key
     @ '', cannot initialize command line argument, skipping this key''"

definition warn_event :: "ConfigWarnFunc \<Rightarrow> string \<Rightarrow> event" where
  "warn_event wfn message = (case wfn of PkgWarn \<Rightarrow> EvLogPrint message | CallerWarn \<Rightarrow> EvWarnFunc message)"

definition init_event :: "ConfigWarnFunc \<Rightarrow> ConfigItem \<Rightarrow> event" where
  "init_event wfn item =
     (if has_flag item
      then EvRegisterFlag (effective_flag_name item) (zero_value (type_of (Default item))) (Description item)
      else warn_event wfn (warning_for (Key item)))"

definition registration_events :: "ConfigWarnFunc \<Rightarrow> string \<Rightarrow> string \<Rightarrow> ConfigItem list \<Rightarrow> event list" where
  "registration_events wfn dcp dsp items =
     [EvRegisterFlag ''config-path'' (GoString dcp) ''config file path without file name'',
      EvRegisterFlag ''secrets-path'' (GoString dsp) ''secrets file path without file name'']
     @ map (init_event wfn) items"

text \<open>The events of the three passes, for a no-flag set \<open>nf\<close>.\<close>

definition pass_events :: "(string \<rightharpoonup> bool) \<Rightarrow> ConfigItem list \<Rightarrow> event list" where
  "pass_events nf items =
     map default_event items @ map env_event items
     @ map bind_event (filter (\<lambda>j. nf (Key j) = None) items)"

text \<open>
  The layers of the store, the flag set and the no-flag set after a pass over a registry:
  a later item overwrites what an earlier one bound under the same name.
\<close>

fun defaults_after :: "ConfigItem list \<Rightarrow> (string \<rightharpoonup> go_value) \<Rightarrow> (string \<rightharpoonup> go_value)" where
  "defaults_after [] m = m"
| "defaults_after (j # js) m = defaults_after js (m(Key j \<mapsto> Default j))"

fun env_after :: "ConfigItem list \<Rightarrow> (string \<rightharpoonup> string) \<Rightarrow> (string \<rightharpoonup> string)" where
  "env_after [] m = m"
| "env_after (j # js) m = env_after js (if Key j = [] then m else m(Key j \<mapsto> effective_env_name j))"

fun pflags_after :: "(string \<rightharpoonup> bool) \<Rightarrow> ConfigItem list \<Rightarrow> (string \<rightharpoonup> string) \<Rightarrow> (string \<rightharpoonup> string)" where
  "pflags_after nf [] m = m"
| "pflags_after nf (j # js) m =
     pflags_after nf js (if nf (Key j) = None then m(Key j \<mapsto> effective_flag_name j) else m)"

definition item_flag :: "ConfigItem \<Rightarrow> Flag" where
  "item_flag item =
     \<lparr>DefValue = zero_value (type_of (Default item)), Usage = Description item,
      Changed = False, Text = [], Target = None\<rparr>"

definition path_flag :: "path_var \<Rightarrow> string \<Rightarrow> string \<Rightarrow> Flag" where
  "path_flag p v usage =
     \<lparr>DefValue = GoString v, Usage = usage, Changed = False, Text = [], Target = Some p\<rparr>"

fun flags_after :: "ConfigItem list \<Rightarrow> (string \<rightharpoonup> Flag) \<Rightarrow> (string \<rightharpoonup> Flag)" where
  "flags_after [] m = m"
| "flags_after (j # js) m =
     flags_after js (if has_flag j then m(effective_flag_name j \<mapsto> item_flag j) else m)"

fun noflags_after :: "ConfigItem list \<Rightarrow> (string \<rightharpoonup> bool) \<Rightarrow> (string \<rightharpoonup> bool)" where
  "noflags_after [] m = m"
| "noflags_after (j # js) m = noflags_after js (if has_flag j then m else m(Key j \<mapsto> True))"

text \<open>The state the three passes of a full setup leave, when every bind succeeds.\<close>

definition passes :: "state \<Rightarrow> state" where
  "passes s =
     s\<lparr>ext := (ext s)\<lparr>
        v_defaults := defaults_after (configItems s) (v_defaults (ext s)),
        v_env := env_after (configItems s) (v_env (ext s)),
        v_pflags := pflags_after (configItemKeysWithNoFlags s) (configItems s) (v_pflags (ext s)),
        events := events (ext s) @ pass_events (configItemKeysWithNoFlags s) (configItems s)\<rparr>\<rparr>"

text \<open>
  What the flag-binding pass may do, whether its binds succeed or not: it binds flags
  of keys outside the no-flag set, calls bind-flag for such keys and the fail callback,
  and touches nothing else.
\<close>

fun flag_pass_event :: "(string \<rightharpoonup> bool) \<Rightarrow> event \<Rightarrow> bool" where
  "flag_pass_event nf (EvBindPFlag k f) = (nf k = None)"
| "flag_pass_event nf (EvFailFunc e) = True"
| "flag_pass_event nf _ = False"

definition flag_pass :: "state \<Rightarrow> state \<Rightarrow> bool" where
  "flag_pass s s' =
     (\<exists>pf es. s' = s\<lparr>ext := (ext s)\<lparr>v_pflags := pf, events := events (ext s) @ es\<rparr>\<rparr>
        \<and> (\<forall>k. configItemKeysWithNoFlags s k \<noteq> None \<longrightarrow> pf k = v_pflags (ext s) k)
        \<and> list_all (flag_pass_event (configItemKeysWithNoFlags s)) es)"

text \<open>The error \<^verbatim>\<open>bindFlag\<close> reports for a flag that was never registered.\<close>

definition bind_error :: "string \<Rightarrow> error" where
  "bind_error key =
     ''Fatal error could not bind configuration flag '' @ key @ '': ''
       @ (''flag for '' @ key @ '' is nil'') @ [CHR 0x0A]"

subsection \<open>The validation pass\<close>

text \<open>
  Section 4.7: the validators run "once, in registry order", up to and including the first
  that returns an error; that error ends the pass.
\<close>

fun validated :: "world \<Rightarrow> ConfigItem list \<Rightarrow> ConfigItem list" where
  "validated w [] = []"
| "validated w (j # js) =
     j # (case Validate j w (Key j) of None \<Rightarrow> validated w js | Some e \<Rightarrow> [])"

fun first_error :: "world \<Rightarrow> ConfigItem list \<Rightarrow> error option" where
  "first_error w [] = None"
| "first_error w (j # js) =
     (case Validate j w (Key j) of None \<Rightarrow> first_error w js | Some e \<Rightarrow> Some e)"

definition validation_result :: "ConfigItem list \<Rightarrow> state \<Rightarrow> state result" where
  "validation_result items s =
     (let s' = s\<lparr>ext := (ext s)\<lparr>events := events (ext s)
                  @ map (\<lambda>j. EvValidate (Key j)) (validated (store_view (ext s)) items)\<rparr>\<rparr>
      in case first_error (store_view (ext s)) items of
           None \<Rightarrow> Done s'
         | Some e \<Rightarrow> Panic e s')"

subsection \<open>Sequences of calls on the package\<close>

text \<open>
  The calls a process can make on the package, and the state a sequence of them leaves;
  a call that panics leaves the state it had reached.
\<close>

datatype operation =
    OpSetup "ConfigItem list" ConfigFailFunc ConfigWarnFunc
  | OpSetupDefaultsOnly "ConfigItem list" ConfigFailFunc ConfigWarnFunc
  | OpSetupWithOverriddenConfigPath "ConfigItem list" ConfigFailFunc ConfigWarnFunc string string
  | OpLoad "state \<Rightarrow> world result"

fun perform :: "operation \<Rightarrow> state \<Rightarrow> state" where
  "perform (OpSetup items failFunc warnFunc) s = state_of (Setup items failFunc warnFunc s)"
| "perform (OpSetupDefaultsOnly items failFunc warnFunc) s = SetupDefaultsOnly items failFunc warnFunc s"
| "perform (OpSetupWithOverriddenConfigPath items failFunc warnFunc dcp dsp) s =
     state_of (SetupWithOverriddenConfigPath items failFunc warnFunc dcp dsp s)"
| "perform (OpLoad performLoad) s = state_of (Load performLoad s)"

fun run :: "operation list \<Rightarrow> state \<Rightarrow> state" where
  "run [] s = s"
| "run (op # ops) s = run ops (perform op s)"

section \<open>Example registries and states\<close>

text \<open>An item with no validation and no explicit names, of a given key and default.\<close>

definition no_validation_item :: "string \<Rightarrow> go_value \<Rightarrow> ConfigItem" where
  "no_validation_item key d =
     \<lparr>Key = key, EnvName = [], FlagName = [], Default = d, Description = [],
      Validate = ConfigNeedsNoValidation\<rparr>"

text \<open>The process at its start, with no arguments and an empty environment.\<close>

definition fresh :: state where
  "fresh = initial_state [] Map.empty"

definition empty_key_item :: ConfigItem where
  "empty_key_item = no_validation_item [] (GoString [])"

text \<open>An item whose validator rejects, and a fail callback that records and returns.\<close>

definition rejecting_item :: ConfigItem where
  "rejecting_item =
     \<lparr>Key = ''server.port'', EnvName = [], FlagName = [], Default = GoUint 80,
      Description = ''port to listen on'',
      Validate = (\<lambda>w key. Some (''rejected: '' @ key))\<rparr>"

definition recording_fail :: ConfigFailFunc where
  "recording_fail = CallerFail (\<lambda>err. None)"

text \<open>The keys and defaults of the two examples of the README.\<close>

definition readme_items :: "ConfigItem list" where
  "readme_items =
     [no_validation_item ''server.address'' (GoString []),
      no_validation_item ''server.port'' (GoUint 8080),
      no_validation_item ''some.key'' (GoStruct ''TopLevelStructuredConfig'' [])]"

text \<open>A boolean item whose default is true, with a flag name of its own.\<close>

definition debug_item :: ConfigItem where
  "debug_item =
     \<lparr>Key = ''debug'', EnvName = [], FlagName = ''verbose'', Default = GoBool True,
      Description = ''log more'', Validate = ConfigNeedsNoValidation\<rparr>"

text \<open>The process after a full setup in which \<^verbatim>\<open>some.key\<close> had a struct as its default.\<close>

definition was_struct :: state where
  "was_struct =
     state_of (Setup [no_validation_item ''some.key'' (GoStruct ''TopLevelStructuredConfig'' [])]
       PkgFail CallerWarn fresh)"

text \<open>The process after a full setup with the rejecting item and the recording callback.\<close>

definition rejecting_setup :: state where
  "rejecting_setup = state_of (Setup [rejecting_item] recording_fail CallerWarn fresh)"

section \<open>Lemmas: what each loop does, as a whole\<close>

lemma first_info_low: "b < 0xC2 \<Longrightarrow> first_info b = None"
  by (simp add: first_info_def)

lemma low_width: "(of_char c :: nat) < 0xC2 \<Longrightarrow> DecodeRuneInString_width (c # cs) = 1"
  by (simp add: DecodeRuneInString_width_def first_info_low)

lemma kept_width: "kept c \<Longrightarrow> DecodeRuneInString_width (c # cs) = 1"
  by (rule low_width) (auto simp: kept_def)

lemma spec_replace_not_kept:
  assumes "\<not> kept c" "0 < n"
  shows "spec_replace (take n (c # cs)) = ''_''"
proof (cases n)
  case 0
  with assms show ?thesis by simp
next
  case (Suc m)
  then show ?thesis using assms
    by (cases "take m cs") (simp_all add: spec_replace_def split: list.splits)
qed

lemma ReplaceAllString_runes:
  "ReplaceAllString key ''_'' = concat (map spec_replace (runes key))"
proof (induction key "''_''" rule: ReplaceAllString.induct)
  case 1
  show ?case by simp
next
  case (2 c cs)
  show ?case
  proof (cases "kept c")
    case True
    with 2 show ?thesis by (simp add: kept_width spec_replace_def)
  next
    case False
    with 2 show ?thesis
      by (simp add: spec_replace_not_kept DecodeRuneInString_width_pos del: take_Cons' drop_Cons')
  qed
qed

lemma ascii_width: "(of_char c :: nat) < 128 \<Longrightarrow> DecodeRuneInString_width (c # cs) = 1"
  by (rule low_width) simp

lemma ReplaceAllString_ascii:
  "\<forall>c \<in> set key. (of_char c :: nat) < 128 \<Longrightarrow>
   ReplaceAllString key ''_'' = map (\<lambda>c. if kept c then c else CHR ''_'') key"
  by (induction key) (simp_all add: ascii_width)

lemma ReplaceAllString_chars:
  "c \<in> set (ReplaceAllString key ''_'') \<Longrightarrow> kept c \<or> c = CHR ''_''"
  by (induction key "''_''" rule: ReplaceAllString.induct) (auto split: if_splits)

lemma setupEnv_item_frame:
  "setupEnv_item item s =
     s\<lparr>ext := (ext s)\<lparr>v_env := env_after [item] (v_env (ext s)),
                       events := events (ext s) @ [env_event item]\<rparr>\<rparr>"
  by (simp add: setupEnv_item_def viper_BindEnv_def emit_def ReplaceAllString_runes
      effective_env_name_def spec_env_name_def env_event_def)

lemma setupEnv_loop_frame:
  "setupEnv_loop items s =
     s\<lparr>ext := (ext s)\<lparr>v_env := env_after items (v_env (ext s)),
                       events := events (ext s) @ map env_event items\<rparr>\<rparr>"
  by (induction items arbitrary: s) (simp_all add: setupEnv_item_frame)

lemma find_app:
  "find P (xs @ ys) = (case find P xs of None \<Rightarrow> find P ys | Some x \<Rightarrow> Some x)"
  by (induction xs) simp_all

lemma last_with_Nil [simp]: "last_with f k [] = None"
  by (simp add: last_with_def)

lemma last_with_Cons:
  "last_with f k (j # js) = (case last_with f k js of None \<Rightarrow> (if f j = k then Some j else None) | Some x \<Rightarrow> Some x)"
  by (simp add: last_with_def find_app split: option.splits)

lemma env_after_lookup:
  "env_after items m k =
     (case last_with Key k items of
        None \<Rightarrow> m k
      | Some j \<Rightarrow> if k = [] then m k else Some (effective_env_name j))"
  by (induction items arbitrary: m) (auto simp: last_with_Cons split: option.splits)

lemma setupEnv_frame:
  "setupEnv s =
     s\<lparr>ext := (ext s)\<lparr>v_env := env_after (configItems s) (v_env (ext s)),
                       events := events (ext s) @ map env_event (configItems s)\<rparr>\<rparr>"
  by (simp add: setupEnv_def setupEnv_loop_frame)

lemma new_events_setupEnv: "new_events s (setupEnv s) = map env_event (configItems s)"
  by (simp add: new_events_def setupEnv_frame)

lemmas pflag_defs =
  pflag_Var_def pflag_StringVar_def pflag_String_def pflag_Int_def pflag_Int8_def
  pflag_Int16_def pflag_Int32_def pflag_Uint_def pflag_Uint8_def pflag_Uint16_def
  pflag_Uint32_def pflag_Bool_def pflag_StringSlice_def

lemma setupDefaults_loop_frame:
  "setupDefaults_loop items s =
     s\<lparr>ext := (ext s)\<lparr>v_defaults := defaults_after items (v_defaults (ext s)),
                       events := events (ext s) @ map default_event items\<rparr>\<rparr>"
  by (induction items arbitrary: s) (simp_all add: viper_SetDefault_def emit_def default_event_def)

lemma defaults_after_lookup:
  "defaults_after items m k =
     (case last_with Key k items of None \<Rightarrow> m k | Some j \<Rightarrow> Some (Default j))"
  by (induction items arbitrary: m) (auto simp: last_with_Cons split: option.splits)

lemma initializeFlags_item_frame:
  "initializeFlags_item item s =
     s\<lparr>configItemKeysWithNoFlags := noflags_after [item] (configItemKeysWithNoFlags s),
       ext := (ext s)\<lparr>flags := flags_after [item] (flags (ext s)),
                       events := events (ext s) @ [init_event (warnFunction s) item]\<rparr>\<rparr>"
  by (cases "Default item"; cases "warnFunction s")
     (simp_all add: initializeFlags_item_def Let_def pflag_defs emit_def init_event_def has_flag_def
        item_flag_def effective_flag_name_def call_warnFunction_def warn_def warn_event_def
        warning_for_def)

lemma initializeFlags_loop_frame:
  "initializeFlags_loop items s =
     s\<lparr>configItemKeysWithNoFlags := noflags_after items (configItemKeysWithNoFlags s),
       ext := (ext s)\<lparr>flags := flags_after items (flags (ext s)),
                       events := events (ext s) @ map (init_event (warnFunction s)) items\<rparr>\<rparr>"
  by (induction items arbitrary: s) (simp_all add: initializeFlags_item_frame)

lemma initializeFlags_frame:
  "initializeFlags dcp dsp s =
     s\<lparr>configPath := dcp, secretsPath := dsp,
       configItemKeysWithNoFlags := noflags_after (configItems s) (configItemKeysWithNoFlags s),
       ext := (ext s)\<lparr>
         flags := flags_after (configItems s)
           ((flags (ext s))
              (''config-path'' \<mapsto> path_flag ConfigPathVar dcp ''config file path without file name'',
               ''secrets-path'' \<mapsto> path_flag SecretsPathVar dsp ''secrets file path without file name'')),
         events := events (ext s)
           @ [EvRegisterFlag ''config-path'' (GoString dcp) ''config file path without file name'',
              EvRegisterFlag ''secrets-path'' (GoString dsp) ''secrets file path without file name'']
           @ map (init_event (warnFunction s)) (configItems s)\<rparr>\<rparr>"
  by (simp add: initializeFlags_def Let_def initializeFlags_loop_frame pflag_defs emit_def write_var_def
      path_flag_def)

lemma flags_after_lookup:
  "flags_after items m n =
     (case last_with effective_flag_name n (filter has_flag items) of
        None \<Rightarrow> m n
      | Some j \<Rightarrow> Some (item_flag j))"
  by (induction items arbitrary: m) (auto simp: last_with_Cons split: option.splits)

lemma noflags_after_lookup:
  "noflags_after items m k =
     (if \<exists>j \<in> set items. \<not> has_flag j \<and> Key j = k then Some True else m k)"
  by (induction items arbitrary: m) auto

lemma parse_args_frame:
  "configItems (state_of (parse_args cmdline s)) = configItems s
   \<and> failFunction (state_of (parse_args cmdline s)) = failFunction s
   \<and> warnFunction (state_of (parse_args cmdline s)) = warnFunction s
   \<and> configItemKeysWithNoFlags (state_of (parse_args cmdline s)) = configItemKeysWithNoFlags s
   \<and> args (ext (state_of (parse_args cmdline s))) = args (ext s)
   \<and> environ (ext (state_of (parse_args cmdline s))) = environ (ext s)
   \<and> v_defaults (ext (state_of (parse_args cmdline s))) = v_defaults (ext s)
   \<and> v_env (ext (state_of (parse_args cmdline s))) = v_env (ext s)
   \<and> v_pflags (ext (state_of (parse_args cmdline s))) = v_pflags (ext s)
   \<and> v_secrets (ext (state_of (parse_args cmdline s))) = v_secrets (ext s)
   \<and> v_config (ext (state_of (parse_args cmdline s))) = v_config (ext s)
   \<and> events (ext (state_of (parse_args cmdline s))) = events (ext s)
   \<and> (\<forall>n. (flags (ext (state_of (parse_args cmdline s))) n = None) = (flags (ext s) n = None))"
proof (induction cmdline arbitrary: s)
  case Nil
  show ?case by simp
next
  case (Cons a cmdline)
  obtain name arg where a: "a = (name, arg)" by (cases a)
  show ?case
  proof (cases "flags (ext s) name")
    case None
    then show ?thesis by (simp add: a)
  next
    case (Some f)
    let ?s1 = "write_var (Target f) arg
               (s\<lparr>ext := (ext s)\<lparr>flags := (flags (ext s))(name \<mapsto> f\<lparr>Changed := True, Text := arg\<rparr>)\<rparr>\<rparr>)"
    have step: "parse_args (a # cmdline) s = parse_args cmdline ?s1"
      by (simp add: a Some)
    have s1: "configItems ?s1 = configItems s" "failFunction ?s1 = failFunction s"
      "warnFunction ?s1 = warnFunction s"
      "configItemKeysWithNoFlags ?s1 = configItemKeysWithNoFlags s"
      "args (ext ?s1) = args (ext s)" "environ (ext ?s1) = environ (ext s)"
      "v_defaults (ext ?s1) = v_defaults (ext s)" "v_env (ext ?s1) = v_env (ext s)"
      "v_pflags (ext ?s1) = v_pflags (ext s)" "v_secrets (ext ?s1) = v_secrets (ext s)"
      "v_config (ext ?s1) = v_config (ext s)" "events (ext ?s1) = events (ext s)"
      "\<And>n. (flags (ext ?s1) n = None) = (flags (ext s) n = None)"
      using Some by (auto simp: write_var_def split: option.splits path_var.splits)
    show ?thesis
      unfolding step using Cons.IH [of ?s1] by (simp add: s1)
  qed
qed

lemma bindFlag_cases:
  "bindFlag key fname s =
     (if flags (ext s) fname = None
      then call_failFunction (bind_error key) (emit (EvBindPFlag key None) s)
      else Done (s\<lparr>ext := (ext s)\<lparr>v_pflags := (v_pflags (ext s))(key \<mapsto> fname),
                                   events := events (ext s) @ [EvBindPFlag key (Some fname)]\<rparr>\<rparr>))"
  by (simp add: bindFlag_def viper_BindPFlag_def pflag_Lookup_def emit_def bind_error_def)

lemma bindFlag_success:
  "flags (ext s) fname \<noteq> None \<Longrightarrow>
   bindFlag key fname s =
     Done (s\<lparr>ext := (ext s)\<lparr>v_pflags := (v_pflags (ext s))(key \<mapsto> fname),
                             events := events (ext s) @ [EvBindPFlag key (Some fname)]\<rparr>\<rparr>)"
  by (auto simp: bindFlag_cases)

lemma setupFlags_loop_Cons:
  "setupFlags_loop (item # items) s =
     (if configItemKeysWithNoFlags s (Key item) = None
      then and_then (bindFlag (Key item) (effective_flag_name item) s) (setupFlags_loop items)
      else setupFlags_loop items s)"
  by (simp add: effective_flag_name_def)

declare setupFlags_loop.simps(2) [simp del]

lemma setupFlags_loop_success:
  "\<forall>j \<in> set items. configItemKeysWithNoFlags s (Key j) = None
       \<longrightarrow> flags (ext s) (effective_flag_name j) \<noteq> None \<Longrightarrow>
   setupFlags_loop items s =
     Done (s\<lparr>ext := (ext s)\<lparr>
       v_pflags := pflags_after (configItemKeysWithNoFlags s) items (v_pflags (ext s)),
       events := events (ext s)
         @ map bind_event (filter (\<lambda>j. configItemKeysWithNoFlags s (Key j) = None) items)\<rparr>\<rparr>)"
proof (induction items arbitrary: s)
  case Nil
  show ?case by simp
next
  case (Cons item items)
  show ?case
  proof (cases "configItemKeysWithNoFlags s (Key item)")
    case (Some b)
    have "setupFlags_loop (item # items) s = setupFlags_loop items s"
      using Some by (simp add: setupFlags_loop_Cons)
    moreover have "\<forall>j \<in> set items. configItemKeysWithNoFlags s (Key j) = None
            \<longrightarrow> flags (ext s) (effective_flag_name j) \<noteq> None"
      using Cons.prems by simp
    ultimately show ?thesis using Cons.IH [of s] Some by simp
  next
    case None
    note True = None
    let ?n = "effective_flag_name item"
    let ?s1 = "s\<lparr>ext := (ext s)\<lparr>v_pflags := (v_pflags (ext s))(Key item \<mapsto> ?n),
                 events := events (ext s) @ [EvBindPFlag (Key item) (Some ?n)]\<rparr>\<rparr>"
    have reg: "flags (ext s) ?n \<noteq> None" using Cons.prems True by simp
    have step: "setupFlags_loop (item # items) s = setupFlags_loop items ?s1"
      using True bindFlag_success [OF reg, of "Key item"]
      by (simp add: setupFlags_loop_Cons)
    have "\<forall>j \<in> set items. configItemKeysWithNoFlags ?s1 (Key j) = None
            \<longrightarrow> flags (ext ?s1) (effective_flag_name j) \<noteq> None"
      using Cons.prems by simp
    note ih = Cons.IH [OF this]
    show ?thesis
      unfolding step ih using True by (simp add: bind_event_def)
  qed
qed

lemma flag_pass_refl: "flag_pass s s"
  unfolding flag_pass_def
  by (rule exI [of _ "v_pflags (ext s)"], rule exI [of _ "[]"]) simp

lemma flag_pass_trans:
  assumes "flag_pass s s1" and "flag_pass s1 s2"
  shows "flag_pass s s2"
proof -
  from assms(1) obtain pf1 es1 where 1:
    "s1 = s\<lparr>ext := (ext s)\<lparr>v_pflags := pf1, events := events (ext s) @ es1\<rparr>\<rparr>"
    "\<forall>k. configItemKeysWithNoFlags s k \<noteq> None \<longrightarrow> pf1 k = v_pflags (ext s) k"
    "list_all (flag_pass_event (configItemKeysWithNoFlags s)) es1"
    unfolding flag_pass_def by blast
  from assms(2) obtain pf2 es2 where 2:
    "s2 = s1\<lparr>ext := (ext s1)\<lparr>v_pflags := pf2, events := events (ext s1) @ es2\<rparr>\<rparr>"
    "\<forall>k. configItemKeysWithNoFlags s1 k \<noteq> None \<longrightarrow> pf2 k = v_pflags (ext s1) k"
    "list_all (flag_pass_event (configItemKeysWithNoFlags s1)) es2"
    unfolding flag_pass_def by blast
  have nf: "configItemKeysWithNoFlags s1 = configItemKeysWithNoFlags s"
    and pf: "v_pflags (ext s1) = pf1"
    by (simp_all add: 1(1))
  have eq: "s2 = s\<lparr>ext := (ext s)\<lparr>v_pflags := pf2, events := events (ext s) @ (es1 @ es2)\<rparr>\<rparr>"
    by (simp add: 1(1) 2(1))
  have keep: "\<forall>k. configItemKeysWithNoFlags s k \<noteq> None \<longrightarrow> pf2 k = v_pflags (ext s) k"
    using 1(2) 2(2) nf pf by simp
  have evs: "list_all (flag_pass_event (configItemKeysWithNoFlags s)) (es1 @ es2)"
    using 1(3) 2(3) nf by simp
  show ?thesis
    unfolding flag_pass_def using eq keep evs by blast
qed

lemma call_failFunction_flag_pass: "flag_pass s (state_of (call_failFunction err s))"
proof (cases "failFunction s")
  case PkgFail
  then show ?thesis by (simp add: call_failFunction_def fail_def flag_pass_refl)
next
  case (CallerFail f)
  have "flag_pass s (emit (EvFailFunc err) s)"
    unfolding flag_pass_def emit_def
    by (rule exI [of _ "v_pflags (ext s)"], rule exI [of _ "[EvFailFunc err]"]) simp
  then show ?thesis using CallerFail
    by (cases "f err") (simp_all add: call_failFunction_def)
qed

lemma bindFlag_flag_pass:
  assumes "configItemKeysWithNoFlags s key = None"
  shows "flag_pass s (state_of (bindFlag key fname s))"
proof (cases "flags (ext s) fname")
  case (Some fl)
  have "flag_pass s (s\<lparr>ext := (ext s)\<lparr>v_pflags := (v_pflags (ext s))(key \<mapsto> fname),
                          events := events (ext s) @ [EvBindPFlag key (Some fname)]\<rparr>\<rparr>)"
    unfolding flag_pass_def
    by (rule exI [of _ "(v_pflags (ext s))(key \<mapsto> fname)"],
        rule exI [of _ "[EvBindPFlag key (Some fname)]"]) (use assms in auto)
  then show ?thesis using Some by (simp add: bindFlag_cases)
next
  case None
  have "flag_pass s (emit (EvBindPFlag key None) s)"
    unfolding flag_pass_def emit_def
    by (rule exI [of _ "v_pflags (ext s)"], rule exI [of _ "[EvBindPFlag key None]"])
       (use assms in simp)
  moreover have "flag_pass (emit (EvBindPFlag key None) s)
      (state_of (call_failFunction (bind_error key) (emit (EvBindPFlag key None) s)))"
    by (rule call_failFunction_flag_pass)
  ultimately show ?thesis using None
    by (simp add: bindFlag_cases flag_pass_trans)
qed

lemma setupFlags_loop_flag_pass: "flag_pass s (state_of (setupFlags_loop items s))"
proof (induction items arbitrary: s)
  case Nil
  show ?case by (simp add: flag_pass_refl)
next
  case (Cons item items)
  show ?case
  proof (cases "configItemKeysWithNoFlags s (Key item)")
    case (Some b)
    then show ?thesis using Cons.IH [of s] by (simp add: setupFlags_loop_Cons)
  next
    case None
    let ?r = "bindFlag (Key item) (effective_flag_name item) s"
    have 1: "flag_pass s (state_of ?r)" by (rule bindFlag_flag_pass [OF None])
    show ?thesis
    proof (cases ?r)
      case (Panic e s')
      then show ?thesis using 1 None by (simp add: setupFlags_loop_Cons)
    next
      case (Done s')
      have "flag_pass s' (state_of (setupFlags_loop items s'))" by (rule Cons.IH)
      then have "flag_pass s (state_of (setupFlags_loop items s'))"
        using 1 Done flag_pass_trans by simp
      then show ?thesis using Done None by (simp add: setupFlags_loop_Cons)
    qed
  qed
qed

lemma pflag_Parse_frame:
  "configItems (state_of (pflag_Parse s)) = configItems s
   \<and> failFunction (state_of (pflag_Parse s)) = failFunction s
   \<and> warnFunction (state_of (pflag_Parse s)) = warnFunction s
   \<and> configItemKeysWithNoFlags (state_of (pflag_Parse s)) = configItemKeysWithNoFlags s
   \<and> args (ext (state_of (pflag_Parse s))) = args (ext s)
   \<and> environ (ext (state_of (pflag_Parse s))) = environ (ext s)
   \<and> v_defaults (ext (state_of (pflag_Parse s))) = v_defaults (ext s)
   \<and> v_env (ext (state_of (pflag_Parse s))) = v_env (ext s)
   \<and> v_pflags (ext (state_of (pflag_Parse s))) = v_pflags (ext s)
   \<and> v_secrets (ext (state_of (pflag_Parse s))) = v_secrets (ext s)
   \<and> v_config (ext (state_of (pflag_Parse s))) = v_config (ext s)
   \<and> events (ext (state_of (pflag_Parse s))) = events (ext s) @ [EvParse]
   \<and> (\<forall>n. (flags (ext (state_of (pflag_Parse s))) n = None) = (flags (ext s) n = None))"
  using parse_args_frame [of "args (ext s)" "emit EvParse s"]
  by (simp add: pflag_Parse_def emit_def)

lemma last_with_found: "j \<in> set items \<Longrightarrow> f j = n \<Longrightarrow> last_with f n items \<noteq> None"
  by (induction items) (auto simp: last_with_Cons split: option.splits)

lemma registered_after_initializeFlags:
  assumes "j \<in> set (configItems s)" and "has_flag j"
  shows "flags (ext (initializeFlags dcp dsp s)) (effective_flag_name j) \<noteq> None"
proof -
  have "j \<in> set (filter has_flag (configItems s))" using assms by simp
  then have "last_with effective_flag_name (effective_flag_name j) (filter has_flag (configItems s)) \<noteq> None"
    by (rule last_with_found) simp
  then show ?thesis
    by (auto simp: initializeFlags_frame flags_after_lookup split: option.splits)
qed

lemma noflag_after_initializeFlags:
  assumes "j \<in> set (configItems s)" and "\<not> has_flag j"
  shows "configItemKeysWithNoFlags (initializeFlags dcp dsp s) (Key j) = Some True"
  using assms by (auto simp: initializeFlags_frame noflags_after_lookup)

lemma setupDefaults_frame:
  "setupDefaults s =
     s\<lparr>ext := (ext s)\<lparr>v_defaults := defaults_after (configItems s) (v_defaults (ext s)),
                       events := events (ext s) @ map default_event (configItems s)\<rparr>\<rparr>"
  by (simp add: setupDefaults_def setupDefaults_loop_frame)

lemma passes_Done:
  assumes "\<forall>j \<in> set (configItems s). configItemKeysWithNoFlags s (Key j) = None
             \<longrightarrow> flags (ext s) (effective_flag_name j) \<noteq> None"
  shows "setupFlags (setupEnv (setupDefaults s)) = Done (passes s)"
proof -
  let ?s5 = "setupEnv (setupDefaults s)"
  have s5: "?s5 = s\<lparr>ext := (ext s)\<lparr>
        v_defaults := defaults_after (configItems s) (v_defaults (ext s)),
        v_env := env_after (configItems s) (v_env (ext s)),
        events := events (ext s) @ map default_event (configItems s) @ map env_event (configItems s)\<rparr>\<rparr>"
    by (simp add: setupEnv_frame setupDefaults_frame)
  have pre: "\<forall>j \<in> set (configItems ?s5). configItemKeysWithNoFlags ?s5 (Key j) = None
             \<longrightarrow> flags (ext ?s5) (effective_flag_name j) \<noteq> None"
    using assms by (simp add: s5)
  have "setupFlags ?s5 = setupFlags_loop (configItems ?s5) ?s5"
    by (simp add: setupFlags_def)
  also have "\<dots> = Done (?s5\<lparr>ext := (ext ?s5)\<lparr>
       v_pflags := pflags_after (configItemKeysWithNoFlags ?s5) (configItems ?s5) (v_pflags (ext ?s5)),
       events := events (ext ?s5)
         @ map bind_event (filter (\<lambda>j. configItemKeysWithNoFlags ?s5 (Key j) = None) (configItems ?s5))\<rparr>\<rparr>)"
    by (rule setupFlags_loop_success [OF pre])
  also have "\<dots> = Done (passes s)"
    by (simp add: s5 passes_def pass_events_def)
  finally show ?thesis .
qed

lemma Setup_cases:
  fixes items ff wfn dcp dsp s
  defines "s2 \<equiv> initializeFlags dcp dsp (s\<lparr>configItems := items, failFunction := ff, warnFunction := wfn\<rparr>)"
  shows "SetupWithOverriddenConfigPath items ff wfn dcp dsp s =
           (case pflag_Parse s2 of Done s3 \<Rightarrow> Done (passes s3) | Panic e s3 \<Rightarrow> Panic e s3)"
proof (cases "pflag_Parse s2")
  case (Panic e s3)
  then show ?thesis
    by (simp add: SetupWithOverriddenConfigPath_def s2_def)
next
  case (Done s3)
  note pf = pflag_Parse_frame [of s2]
  have s3: "state_of (pflag_Parse s2) = s3" using Done by simp
  have items: "configItems s3 = items"
    using pf s3 by (simp add: s2_def initializeFlags_frame)
  have items2: "configItems (s\<lparr>configItems := items, failFunction := ff, warnFunction := wfn\<rparr>) = items"
    by simp
  have "\<forall>j \<in> set (configItems s3). configItemKeysWithNoFlags s3 (Key j) = None
             \<longrightarrow> flags (ext s3) (effective_flag_name j) \<noteq> None"
  proof (intro ballI impI)
    fix j assume j: "j \<in> set (configItems s3)" and nf: "configItemKeysWithNoFlags s3 (Key j) = None"
    have jin: "j \<in> set (configItems (s\<lparr>configItems := items, failFunction := ff, warnFunction := wfn\<rparr>))"
      using j items by simp
    have nf2: "configItemKeysWithNoFlags s2 (Key j) = None" using nf pf s3 by simp
    have "has_flag j"
    proof (rule ccontr)
      assume "\<not> has_flag j"
      from noflag_after_initializeFlags [OF jin this, of dcp dsp] nf2 show False
        by (simp add: s2_def)
    qed
    from registered_after_initializeFlags [OF jin this, of dcp dsp]
    have "flags (ext s2) (effective_flag_name j) \<noteq> None" by (simp add: s2_def)
    then show "flags (ext s3) (effective_flag_name j) \<noteq> None" using pf s3 by simp
  qed
  from passes_Done [OF this] show ?thesis
    using Done by (simp add: SetupWithOverriddenConfigPath_def s2_def)
qed

lemma spec_env_name_server_address: "spec_env_name ''server.address'' = ''CONFIG_server_address''"
  by code_simp

lemma spec_env_name_Server_Port: "spec_env_name ''Server.Port'' = ''CONFIG__erver__ort''"
  by code_simp

lemma uppercase_not_kept: "uppercase c \<Longrightarrow> \<not> kept c"
  by (auto simp: uppercase_def kept_def)

lemma ReplaceAllString_Server_Port: "ReplaceAllString ''Server.Port'' ''_'' = ''_erver__ort''"
  by code_simp

lemma is_callback_env_events: "filter is_callback (map env_event items) = []"
  by (induction items) (simp_all add: env_event_def)

lemma spec_env_name_empty: "spec_env_name [] = ''CONFIG_''"
  by code_simp

lemma spec_env_name_a: "spec_env_name ''a'' = ''CONFIG_a''"
  by code_simp

lemma validation_result_Nil: "validation_result [] s = Done s"
  by (simp add: validation_result_def)

lemma validate_loop_frame: "validate_loop items s = validation_result items s"
proof (induction items arbitrary: s)
  case Nil
  show ?case by (simp add: validation_result_Nil)
next
  case (Cons item items)
  let ?s1 = "emit (EvValidate (Key item)) s"
  have sv: "store_view (ext ?s1) = store_view (ext s)"
    by (simp add: store_view_def emit_def)
  show ?case
  proof (cases "Validate item (store_view (ext s)) (Key item)")
    case None
    have "validate_loop (item # items) s = validation_result items ?s1"
      using None Cons.IH [of ?s1] by simp
    also have "\<dots> = validation_result (item # items) s"
      using None by (simp add: validation_result_def sv) (simp add: emit_def)
    finally show ?thesis .
  next
    case (Some err)
    then show ?thesis
      by (simp add: validation_result_def fail_def emit_def)
  qed
qed

lemma validate_frame: "validate s = validation_result (configItems s) s"
  by (simp add: validate_def validate_loop_frame)

lemma SetupDefaultsOnly_frame:
  "SetupDefaultsOnly items ff wfn s =
     s\<lparr>failFunction := ff, warnFunction := wfn, configItems := items,
       ext := (ext s)\<lparr>v_defaults := defaults_after items (v_defaults (ext s)),
                       events := events (ext s) @ map default_event items\<rparr>\<rparr>"
  by (simp add: SetupDefaultsOnly_def setupDefaults_frame)

lemma last_with_None_iff: "(last_with f k items = None) = (k \<notin> f ` set items)"
  by (induction items) (auto simp: last_with_Cons split: option.splits)

lemma last_with_distinct:
  "distinct (map f items) \<Longrightarrow> item \<in> set items \<Longrightarrow> last_with f (f item) items = Some item"
proof (induction items)
  case Nil
  then show ?case by simp
next
  case (Cons j js)
  show ?case
  proof (cases "item \<in> set js")
    case True
    then show ?thesis using Cons by (simp add: last_with_Cons)
  next
    case False
    then have "item = j" using Cons.prems by simp
    moreover have "last_with f (f j) js = None"
      using Cons.prems(1) by (simp add: last_with_None_iff)
    ultimately show ?thesis by (simp add: last_with_Cons)
  qed
qed

lemma spec_env_name_server_port: "spec_env_name ''server.port'' = ''CONFIG_server_port''"
  by code_simp

lemma spec_env_name_some_key: "spec_env_name ''some.key'' = ''CONFIG_some_key''"
  by code_simp

lemma validation_result_configItems:
  "configItems (state_of (validation_result items s)) = configItems s"
  by (simp add: validation_result_def Let_def split: option.splits)

lemma flag_pass_configItems: "flag_pass s s' \<Longrightarrow> configItems s' = configItems s"
  by (auto simp: flag_pass_def)

lemma Setup_configItems:
  "configItems (state_of (SetupWithOverriddenConfigPath items ff wfn dcp dsp s)) = items"
proof -
  let ?s2 = "initializeFlags dcp dsp (s\<lparr>configItems := items, failFunction := ff, warnFunction := wfn\<rparr>)"
  have "configItems (state_of (pflag_Parse ?s2)) = items"
    using pflag_Parse_frame [of ?s2] by (simp add: initializeFlags_frame)
  then show ?thesis
    by (cases "pflag_Parse ?s2") (simp_all add: Setup_cases passes_def)
qed

lemma zero_value_type: "type_of (zero_value t) = t"
  by (cases t) simp_all

lemma initializeFlags_item_supported:
  assumes "supported (type_of (Default item))"
  shows "initializeFlags_item item t =
           pflag_Var (effective_flag_name item) (zero_value (type_of (Default item)))
             (Description item) None t"
  using assms
  by (cases "Default item")
     (simp_all add: initializeFlags_item_def Let_def pflag_defs effective_flag_name_def)

lemma initializeFlags_item_unsupported:
  assumes "\<not> supported (type_of (Default item))"
  shows "initializeFlags_item item t =
           call_warnFunction (warning_for (Key item))
             (t\<lparr>configItemKeysWithNoFlags := (configItemKeysWithNoFlags t)(Key item \<mapsto> True)\<rparr>)"
  using assms
  by (cases "Default item") (simp_all add: initializeFlags_item_def Let_def warning_for_def)

lemma new_events_initializeFlags:
  "new_events s (initializeFlags dcp dsp s)
     = registration_events (warnFunction s) dcp dsp (configItems s)"
  by (simp add: new_events_def initializeFlags_frame registration_events_def)

lemma filter_map_none: "(\<And>x. \<not> P (f x)) \<Longrightarrow> filter P (map f xs) = []"
  by (induction xs) simp_all

lemma is_warning_warn_event [simp]: "is_warning (warn_event wfn m)"
  by (cases wfn) (simp_all add: warn_event_def)

lemma is_registration_warn_event [simp]: "\<not> is_registration (warn_event wfn m)"
  by (cases wfn) (simp_all add: warn_event_def)

lemma warn_event_not_fail [simp]:
  "warn_event wfn m \<noteq> EvFailFunc err" "EvFailFunc err \<noteq> warn_event wfn m"
  by (cases wfn; simp add: warn_event_def)+

lemma warn_event_not_bind [simp]:
  "warn_event wfn m \<noteq> EvBindPFlag k f" "EvBindPFlag k f \<noteq> warn_event wfn m"
  by (cases wfn; simp add: warn_event_def)+

lemma warnings_of_init_events:
  "filter is_warning (map (init_event wfn) items)
     = map (\<lambda>j. warn_event wfn (warning_for (Key j)))
         (filter (\<lambda>j. \<not> supported (type_of (Default j))) items)"
  by (induction items) (simp_all add: init_event_def has_flag_def)

lemma registrations_of_init_events:
  "filter is_registration (map (init_event wfn) items)
     = map (\<lambda>j. EvRegisterFlag (effective_flag_name j) (zero_value (type_of (Default j)))
                  (Description j))
         (filter (\<lambda>j. supported (type_of (Default j))) items)"
  by (induction items) (simp_all add: init_event_def has_flag_def)

lemma pflags_after_skip: "nf k \<noteq> None \<Longrightarrow> pflags_after nf items m k = m k"
  by (induction items arbitrary: m) auto

lemma noflags_after_keeps: "m k \<noteq> None \<Longrightarrow> noflags_after items m k \<noteq> None"
  by (auto simp: noflags_after_lookup)

lemma pass_events_no_warning: "filter is_warning (pass_events nf items) = []"
  by (simp add: pass_events_def filter_map_none default_event_def env_event_def bind_event_def)

lemma pass_events_no_registration: "filter is_registration (pass_events nf items) = []"
  by (simp add: pass_events_def filter_map_none default_event_def env_event_def bind_event_def)

lemma pass_events_no_fail: "EvFailFunc err \<notin> set (pass_events nf items)"
  by (auto simp: pass_events_def default_event_def env_event_def bind_event_def)

lemma pass_events_no_bind: "nf k \<noteq> None \<Longrightarrow> EvBindPFlag k f \<notin> set (pass_events nf items)"
  by (auto simp: pass_events_def default_event_def env_event_def bind_event_def)

lemma registration_events_no_fail: "EvFailFunc err \<notin> set (registration_events wfn dcp dsp items)"
  by (auto simp: registration_events_def init_event_def)

lemma registration_events_no_bind: "EvBindPFlag k f \<notin> set (registration_events wfn dcp dsp items)"
  by (auto simp: registration_events_def init_event_def)

text \<open>
  What a full setup leaves: the no-flag set has grown by the keys of the unsupported
  items; the events are the registrations, the parse and, if the parse returned, the
  passes; a flag binding changes only for a key outside the no-flag set.
\<close>

lemma Setup_summary:
  fixes items ff wfn dcp dsp s
  defines "R \<equiv> SetupWithOverriddenConfigPath items ff wfn dcp dsp s"
  defines "nf \<equiv> noflags_after items (configItemKeysWithNoFlags s)"
  shows "configItemKeysWithNoFlags (state_of R) = nf"
    and "new_events s (state_of R) =
           registration_events wfn dcp dsp items @ [EvParse]
           @ (case R of Done s' \<Rightarrow> pass_events nf items | Panic e s' \<Rightarrow> [])"
    and "nf k \<noteq> None \<Longrightarrow> v_pflags (ext (state_of R)) k = v_pflags (ext s) k"
proof -
  let ?s2 = "initializeFlags dcp dsp (s\<lparr>configItems := items, failFunction := ff, warnFunction := wfn\<rparr>)"
  note pf = pflag_Parse_frame [of ?s2]
  have R: "R = (case pflag_Parse ?s2 of Done s3 \<Rightarrow> Done (passes s3) | Panic e s3 \<Rightarrow> Panic e s3)"
    unfolding R_def by (rule Setup_cases)
  have items3: "configItems (state_of (pflag_Parse ?s2)) = items"
    using pf by (simp add: initializeFlags_frame)
  have nf3: "configItemKeysWithNoFlags (state_of (pflag_Parse ?s2)) = nf"
    using pf by (simp add: initializeFlags_frame nf_def)
  have ev3: "events (ext (state_of (pflag_Parse ?s2)))
               = events (ext s) @ registration_events wfn dcp dsp items @ [EvParse]"
    using pf by (simp add: initializeFlags_frame registration_events_def)
  have pf3: "v_pflags (ext (state_of (pflag_Parse ?s2))) = v_pflags (ext s)"
    using pf by (simp add: initializeFlags_frame)
  show "configItemKeysWithNoFlags (state_of R) = nf"
    using nf3 by (cases "pflag_Parse ?s2") (simp_all add: R passes_def)
  show "new_events s (state_of R) =
           registration_events wfn dcp dsp items @ [EvParse]
           @ (case R of Done s' \<Rightarrow> pass_events nf items | Panic e s' \<Rightarrow> [])"
    using ev3 items3 nf3
    by (cases "pflag_Parse ?s2") (simp_all add: R passes_def new_events_def)
  show "v_pflags (ext (state_of R)) k = v_pflags (ext s) k" if "nf k \<noteq> None"
    using pf3 items3 nf3 that
    by (cases "pflag_Parse ?s2") (simp_all add: R passes_def pflags_after_skip)
qed

lemma flag_pass_facts:
  assumes "flag_pass s s'"
  shows "configItemKeysWithNoFlags s' = configItemKeysWithNoFlags s"
    and "list_all (flag_pass_event (configItemKeysWithNoFlags s)) (new_events s s')"
    and "configItemKeysWithNoFlags s k \<noteq> None \<Longrightarrow> v_pflags (ext s') k = v_pflags (ext s) k"
  using assms by (auto simp: flag_pass_def new_events_def)

lemma setupFlags_skips:
  assumes "configItemKeysWithNoFlags t k \<noteq> None"
  shows "EvBindPFlag k f \<notin> set (new_events t (state_of (setupFlags t)))"
    and "v_pflags (ext (state_of (setupFlags t))) k = v_pflags (ext t) k"
proof -
  have fp: "flag_pass t (state_of (setupFlags t))"
    unfolding setupFlags_def by (rule setupFlags_loop_flag_pass)
  show "EvBindPFlag k f \<notin> set (new_events t (state_of (setupFlags t)))"
  proof
    assume "EvBindPFlag k f \<in> set (new_events t (state_of (setupFlags t)))"
    with flag_pass_facts(2) [OF fp]
    have "flag_pass_event (configItemKeysWithNoFlags t) (EvBindPFlag k f)"
      by (force simp: list_all_iff)
    then show False using assms by simp
  qed
  show "v_pflags (ext (state_of (setupFlags t))) k = v_pflags (ext t) k"
    by (rule flag_pass_facts(3) [OF fp assms])
qed

lemma validation_result_noflags:
  "configItemKeysWithNoFlags (state_of (validation_result items s)) = configItemKeysWithNoFlags s"
  by (simp add: validation_result_def Let_def split: option.splits)

lemma perform_keeps_noflag:
  assumes "configItemKeysWithNoFlags s k \<noteq> None"
  shows "configItemKeysWithNoFlags (perform op s) k \<noteq> None"
proof (cases op)
  case (OpSetup items ff wfn)
  then show ?thesis using assms
    by (simp add: Setup_def Setup_summary(1) noflags_after_keeps)
next
  case (OpSetupDefaultsOnly items ff wfn)
  then show ?thesis using assms by (simp add: SetupDefaultsOnly_frame)
next
  case (OpSetupWithOverriddenConfigPath items ff wfn dcp dsp)
  then show ?thesis using assms
    by (simp add: Setup_summary(1) noflags_after_keeps)
next
  case (OpLoad performLoad)
  then show ?thesis using assms
    by (cases "performLoad s") (simp_all add: Load_def validate_frame validation_result_noflags)
qed

lemma run_keeps_noflag:
  "configItemKeysWithNoFlags s k \<noteq> None \<Longrightarrow> configItemKeysWithNoFlags (run ops s) k \<noteq> None"
proof (induction ops arbitrary: s)
  case Nil
  then show ?case by simp
next
  case (Cons op ops)
  have "configItemKeysWithNoFlags (perform op s) k \<noteq> None"
    by (rule perform_keeps_noflag [OF Cons.prems])
  then have "configItemKeysWithNoFlags (run ops (perform op s)) k \<noteq> None"
    by (rule Cons.IH)
  then show ?case by simp
qed

lemma Setup_Done_layers:
  assumes "SetupWithOverriddenConfigPath items ff wfn dcp dsp s = Done s'"
  shows "v_env (ext s') = env_after items (v_env (ext s))"
    and "v_defaults (ext s') = defaults_after items (v_defaults (ext s))"
proof -
  let ?s2 = "initializeFlags dcp dsp (s\<lparr>configItems := items, failFunction := ff, warnFunction := wfn\<rparr>)"
  note pf = pflag_Parse_frame [of ?s2]
  obtain s3 where s3: "pflag_Parse ?s2 = Done s3" and s': "s' = passes s3"
    using assms by (cases "pflag_Parse ?s2") (simp_all add: Setup_cases)
  have "state_of (pflag_Parse ?s2) = s3" using s3 by simp
  then have 3: "configItems s3 = items" "v_env (ext s3) = v_env (ext s)"
    "v_defaults (ext s3) = v_defaults (ext s)"
    using pf by (simp_all add: initializeFlags_frame)
  show "v_env (ext s') = env_after items (v_env (ext s))"
    by (simp add: s' passes_def 3)
  show "v_defaults (ext s') = defaults_after items (v_defaults (ext s))"
    by (simp add: s' passes_def 3)
qed

lemma Setup_returns:
  assumes "args (ext s) = []"
  shows "SetupWithOverriddenConfigPath items ff wfn dcp dsp s =
           Done (passes (emit EvParse (initializeFlags dcp dsp
             (s\<lparr>configItems := items, failFunction := ff, warnFunction := wfn\<rparr>))))"
proof -
  let ?s2 = "initializeFlags dcp dsp (s\<lparr>configItems := items, failFunction := ff, warnFunction := wfn\<rparr>)"
  have "args (ext ?s2) = []" using assms by (simp add: initializeFlags_frame)
  then have "pflag_Parse ?s2 = Done (emit EvParse ?s2)"
    by (simp add: pflag_Parse_def emit_def)
  then show ?thesis by (simp add: Setup_cases)
qed

text \<open>
  When a full setup returns: exactly when every argument of the command line names a
  registered flag. A panic of a full setup is the one of the parse.
\<close>

lemma parse_args_Done_iff:
  "(\<exists>s'. parse_args cmdline s = Done s')
     = (\<forall>a \<in> set cmdline. flags (ext s) (fst a) \<noteq> None)"
proof (induction cmdline arbitrary: s)
  case Nil
  show ?case by simp
next
  case (Cons a cmdline)
  obtain name arg where a: "a = (name, arg)" by (cases a)
  show ?case
  proof (cases "flags (ext s) name")
    case None
    then show ?thesis by (simp add: a)
  next
    case (Some f)
    let ?s1 = "write_var (Target f) arg
               (s\<lparr>ext := (ext s)\<lparr>flags := (flags (ext s))(name \<mapsto> f\<lparr>Changed := True, Text := arg\<rparr>)\<rparr>\<rparr>)"
    have step: "parse_args (a # cmdline) s = parse_args cmdline ?s1"
      by (simp add: a Some)
    have dom: "(flags (ext ?s1) n = None) = (flags (ext s) n = None)" for n
      using Some by (auto simp: write_var_def split: option.splits path_var.splits)
    show ?thesis
      unfolding step using Cons.IH [of ?s1] Some by (simp add: dom a)
  qed
qed

lemma pflag_Parse_Done_iff:
  "(\<exists>s'. pflag_Parse s = Done s')
     = (\<forall>a \<in> set (args (ext s)). flags (ext s) (fst a) \<noteq> None)"
  by (simp add: pflag_Parse_def parse_args_Done_iff) (simp add: emit_def)

lemma flags_after_filter: "flags_after (filter has_flag items) m = flags_after items m"
  by (induction items arbitrary: m) simp_all

lemma Setup_Done_iff:
  "(\<exists>s'. SetupWithOverriddenConfigPath items ff wfn dcp dsp s = Done s')
     = (\<forall>a \<in> set (args (ext s)).
          flags (ext (initializeFlags dcp dsp
            (s\<lparr>configItems := items, failFunction := ff, warnFunction := wfn\<rparr>))) (fst a) \<noteq> None)"
proof -
  let ?s2 = "initializeFlags dcp dsp (s\<lparr>configItems := items, failFunction := ff, warnFunction := wfn\<rparr>)"
  have "(\<exists>s'. SetupWithOverriddenConfigPath items ff wfn dcp dsp s = Done s')
          = (\<exists>s'. pflag_Parse ?s2 = Done s')"
    by (cases "pflag_Parse ?s2") (simp_all add: Setup_cases)
  also have "\<dots> = (\<forall>a \<in> set (args (ext ?s2)). flags (ext ?s2) (fst a) \<noteq> None)"
    by (rule pflag_Parse_Done_iff)
  also have "args (ext ?s2) = args (ext s)" by (simp add: initializeFlags_frame)
  finally show ?thesis .
qed

lemma Setup_Panic_is_parse:
  assumes "SetupWithOverriddenConfigPath items ff wfn dcp dsp s = Panic e s'"
  shows "pflag_Parse (initializeFlags dcp dsp
           (s\<lparr>configItems := items, failFunction := ff, warnFunction := wfn\<rparr>)) = Panic e s'"
  using assms
  by (cases "pflag_Parse (initializeFlags dcp dsp
           (s\<lparr>configItems := items, failFunction := ff, warnFunction := wfn\<rparr>))")
     (simp_all add: Setup_cases)

lemma Setup_Done_without_unsupported:
  "(\<exists>s'. SetupWithOverriddenConfigPath items ff wfn dcp dsp s = Done s')
     = (\<exists>s'. SetupWithOverriddenConfigPath
               (filter (\<lambda>j. supported (type_of (Default j))) items) ff wfn dcp dsp s = Done s')"
proof -
  have f: "filter (\<lambda>j. supported (type_of (Default j))) items = filter has_flag items"
    by (simp add: has_flag_def [abs_def])
  have "flags (ext (initializeFlags dcp dsp
            (s\<lparr>configItems := items, failFunction := ff, warnFunction := wfn\<rparr>)))
        = flags (ext (initializeFlags dcp dsp
            (s\<lparr>configItems := filter has_flag items, failFunction := ff, warnFunction := wfn\<rparr>)))"
    by (simp add: initializeFlags_frame flags_after_filter)
  then show ?thesis by (simp add: Setup_Done_iff f)
qed

section \<open>The derived environment name\<close>

text \<open>
  C1. For every item of the registry whose \<^verbatim>\<open>EnvName\<close> is empty, \<^verbatim>\<open>setupEnv\<close> calls
  bind-environment with the key and the name \<^verbatim>\<open>CONFIG_\<close> followed by the key in which
  every character outside \<^verbatim>\<open>[a-z0-9]\<close> is replaced by \<^verbatim>\<open>_\<close>; and when the key is not
  empty and the item is the last of the registry with this key, that name is the one the
  store holds for the key after \<^verbatim>\<open>setupEnv\<close>, and after a full setup that returns.
\<close>

theorem setupEnv_binds_derived_name:
  assumes "item \<in> set items" and "EnvName item = []"
  shows "EvBindEnv (Key item) (spec_env_name (Key item))
           \<in> set (new_events s (setupEnv (s\<lparr>configItems := items\<rparr>)))
       \<and> (Key item \<noteq> [] \<and> last_with Key (Key item) items = Some item \<longrightarrow>
            v_env (ext (setupEnv (s\<lparr>configItems := items\<rparr>))) (Key item)
              = Some (spec_env_name (Key item))
            \<and> (\<forall>s'. SetupWithOverriddenConfigPath items ff wfn dcp dsp s = Done s' \<longrightarrow>
                   v_env (ext s') (Key item) = Some (spec_env_name (Key item))))"
proof -
  let ?s = "s\<lparr>configItems := items\<rparr>"
  have "env_event item = EvBindEnv (Key item) (spec_env_name (Key item))"
    using assms(2) by (simp add: env_event_def effective_env_name_def)
  moreover have "new_events s (setupEnv ?s) = map env_event items"
    by (simp add: new_events_def setupEnv_frame)
  ultimately have 1: "EvBindEnv (Key item) (spec_env_name (Key item))
           \<in> set (new_events s (setupEnv ?s))"
    using assms(1) by (force simp: image_iff)
  have bound: "env_after items m (Key item) = Some (spec_env_name (Key item))"
    if "Key item \<noteq> []" "last_with Key (Key item) items = Some item" for m
    using that assms(2) by (simp add: env_after_lookup effective_env_name_def)
  have 2: "v_env (ext (setupEnv ?s)) (Key item) = Some (spec_env_name (Key item))"
    if "Key item \<noteq> []" "last_with Key (Key item) items = Some item"
    using bound [OF that] by (simp add: setupEnv_frame)
  have 3: "v_env (ext s') (Key item) = Some (spec_env_name (Key item))"
    if "Key item \<noteq> []" "last_with Key (Key item) items = Some item"
      "SetupWithOverriddenConfigPath items ff wfn dcp dsp s = Done s'" for s'
    using bound [OF that(1,2)] Setup_Done_layers(1) [OF that(3)] by simp
  from 1 2 3 show ?thesis by blast
qed

theorem setupEnv_binds_derived_name_witness:
  "no_validation_item ''server.address'' (GoString []) \<in> set readme_items
   \<and> EnvName (no_validation_item ''server.address'' (GoString [])) = []
   \<and> Key (no_validation_item ''server.address'' (GoString [])) \<noteq> []
   \<and> last_with Key ''server.address'' readme_items
       = Some (no_validation_item ''server.address'' (GoString []))
   \<and> EvBindEnv ''server.address'' ''CONFIG_server_address''
        \<in> set (new_events fresh (setupEnv (fresh\<lparr>configItems := readme_items\<rparr>)))
   \<and> v_env (ext (setupEnv (fresh\<lparr>configItems := readme_items\<rparr>))) ''server.address''
       = Some ''CONFIG_server_address''
   \<and> v_env (ext (state_of (SetupWithOverriddenConfigPath readme_items PkgFail PkgWarn [] [] fresh)))
        ''server.address'' = Some ''CONFIG_server_address''"
proof -
  let ?item = "no_validation_item ''server.address'' (GoString [])"
  have h1: "?item \<in> set readme_items" by (simp add: readme_items_def)
  have h2: "EnvName ?item = []" by (simp add: no_validation_item_def)
  have k: "Key ?item = ''server.address''" by (simp add: no_validation_item_def)
  have h3: "Key ?item \<noteq> []" by (simp add: k)
  have h4: "last_with Key ''server.address'' readme_items = Some ?item"
    by (simp add: last_with_def readme_items_def no_validation_item_def)
  have a: "args (ext fresh) = []"
    by (simp add: fresh_def initial_state_def initial_world_def)
  have d: "SetupWithOverriddenConfigPath readme_items PkgFail PkgWarn [] [] fresh
           = Done (state_of (SetupWithOverriddenConfigPath readme_items PkgFail PkgWarn [] [] fresh))"
    by (simp add: Setup_returns [OF a])
  note th = setupEnv_binds_derived_name [where item = ?item and items = readme_items
      and s = fresh and ff = PkgFail and wfn = PkgWarn and dcp = "[]" and dsp = "[]",
      OF h1 h2, unfolded k spec_env_name_server_address]
  from th h3 h4 d have
    "EvBindEnv ''server.address'' ''CONFIG_server_address''
        \<in> set (new_events fresh (setupEnv (fresh\<lparr>configItems := readme_items\<rparr>)))"
    "v_env (ext (setupEnv (fresh\<lparr>configItems := readme_items\<rparr>))) ''server.address''
       = Some ''CONFIG_server_address''"
    "v_env (ext (state_of (SetupWithOverriddenConfigPath readme_items PkgFail PkgWarn [] [] fresh)))
        ''server.address'' = Some ''CONFIG_server_address''"
    by (simp_all add: k)
  with h1 h2 h3 h4 show ?thesis by simp
qed

section \<open>Upper-case letters in the derived name\<close>

text \<open>
  C2, as stated, fails: for the key \<^verbatim>\<open>Server.Port\<close> the name bound is
  \<^verbatim>\<open>CONFIG__erver__ort\<close>, not \<^verbatim>\<open>CONFIG_Server_Port\<close>.
\<close>

theorem uppercase_not_preserved_counterexample:
  "v_env (ext (setupEnv (fresh\<lparr>configItems := [no_validation_item ''Server.Port'' (GoUint 8080)]\<rparr>)))
     ''Server.Port'' = Some ''CONFIG__erver__ort''
   \<and> v_env (ext (setupEnv (fresh\<lparr>configItems := [no_validation_item ''Server.Port'' (GoUint 8080)]\<rparr>)))
     ''Server.Port'' \<noteq> Some ''CONFIG_Server_Port''"
  by (simp add: setupEnv_frame no_validation_item_def effective_env_name_def
      spec_env_name_Server_Port)

text \<open>
  C2, amended. In the name derived for an item with empty \<^verbatim>\<open>EnvName\<close>, upper-case
  letters of the key do not pass through: no byte after the prefix \<^verbatim>\<open>CONFIG_\<close> is an
  upper-case letter, and in an ASCII key every upper-case letter is replaced, in place, by
  \<^verbatim>\<open>_\<close>, like every other character outside \<^verbatim>\<open>[a-z0-9]\<close>.
\<close>

theorem setupEnv_replaces_uppercase:
  assumes "item \<in> set (configItems s)" and "EnvName item = []"
  shows "EvBindEnv (Key item) (''CONFIG_'' @ ReplaceAllString (Key item) ''_'')
           \<in> set (new_events s (setupEnv s))
       \<and> (\<forall>c \<in> set (ReplaceAllString (Key item) ''_''). \<not> uppercase c)
       \<and> ((\<forall>c \<in> set (Key item). (of_char c :: nat) < 128) \<longrightarrow>
            length (ReplaceAllString (Key item) ''_'') = length (Key item)
            \<and> (\<forall>i < length (Key item). uppercase (Key item ! i)
                   \<longrightarrow> ReplaceAllString (Key item) ''_'' ! i = CHR ''_''))"
proof -
  have "env_event item = EvBindEnv (Key item) (''CONFIG_'' @ ReplaceAllString (Key item) ''_'')"
    using assms(2)
    by (simp add: env_event_def effective_env_name_def spec_env_name_def ReplaceAllString_runes)
  then have 1: "EvBindEnv (Key item) (''CONFIG_'' @ ReplaceAllString (Key item) ''_'')
           \<in> set (new_events s (setupEnv s))"
    using assms(1) by (force simp: new_events_setupEnv image_iff)
  have 2: "\<forall>c \<in> set (ReplaceAllString (Key item) ''_''). \<not> uppercase c"
  proof
    fix c assume "c \<in> set (ReplaceAllString (Key item) ''_'')"
    then have "kept c \<or> c = CHR ''_''" by (rule ReplaceAllString_chars)
    then show "\<not> uppercase c" by (auto simp: uppercase_def kept_def)
  qed
  have 3: "length (ReplaceAllString (Key item) ''_'') = length (Key item)
            \<and> (\<forall>i < length (Key item). uppercase (Key item ! i)
                   \<longrightarrow> ReplaceAllString (Key item) ''_'' ! i = CHR ''_'')"
    if "\<forall>c \<in> set (Key item). (of_char c :: nat) < 128"
    using ReplaceAllString_ascii [OF that] by (simp add: uppercase_not_kept)
  from 1 2 3 show ?thesis by blast
qed

theorem setupEnv_replaces_uppercase_witness:
  "no_validation_item ''Server.Port'' (GoUint 8080)
     \<in> set (configItems (fresh\<lparr>configItems := [no_validation_item ''Server.Port'' (GoUint 8080)]\<rparr>))
   \<and> EnvName (no_validation_item ''Server.Port'' (GoUint 8080)) = []
   \<and> EvBindEnv ''Server.Port'' ''CONFIG__erver__ort''
        \<in> set (new_events (fresh\<lparr>configItems := [no_validation_item ''Server.Port'' (GoUint 8080)]\<rparr>)
                 (setupEnv (fresh\<lparr>configItems := [no_validation_item ''Server.Port'' (GoUint 8080)]\<rparr>)))
   \<and> uppercase (''Server.Port'' ! 0) \<and> ReplaceAllString ''Server.Port'' ''_'' ! 0 = CHR ''_''
   \<and> uppercase (''Server.Port'' ! 7) \<and> ReplaceAllString ''Server.Port'' ''_'' ! 7 = CHR ''_''"
  using setupEnv_replaces_uppercase
    [of "no_validation_item ''Server.Port'' (GoUint 8080)"
        "fresh\<lparr>configItems := [no_validation_item ''Server.Port'' (GoUint 8080)]\<rparr>"]
  by (simp add: no_validation_item_def ReplaceAllString_Server_Port uppercase_def
      del: ReplaceAllString.simps)

section \<open>The validation pass\<close>

text \<open>
  C3, at a failing input: a full setup with an item whose validator rejects and a fail
  callback that records the error and returns, followed by a load that reads no file.
  The load panics with the validator's error, and no callback of the caller is among the
  calls made; a call through \<^verbatim>\<open>failFunction\<close>, as \<^verbatim>\<open>bindFlag\<close> makes it, reaches the
  callback and returns.
\<close>

theorem validate_bypasses_failFunction:
  "Setup [rejecting_item] recording_fail CallerWarn fresh = Done rejecting_setup
   \<and> failFunction rejecting_setup = recording_fail
   \<and> Load (\<lambda>s. Done (ext s)) rejecting_setup
       = Panic ''rejected: server.port'' (emit (EvValidate ''server.port'') rejecting_setup)
   \<and> filter is_callback (events (ext (state_of (Load (\<lambda>s. Done (ext s)) rejecting_setup)))) = []
   \<and> call_failFunction ''rejected: server.port'' rejecting_setup
       = Done (emit (EvFailFunc ''rejected: server.port'') rejecting_setup)"
proof -
  have a: "args (ext fresh) = []"
    by (simp add: fresh_def initial_state_def initial_world_def)
  have s: "rejecting_setup =
      passes (emit EvParse (initializeFlags [] []
        (fresh\<lparr>configItems := [rejecting_item], failFunction := recording_fail,
               warnFunction := CallerWarn\<rparr>)))"
    by (simp add: rejecting_setup_def Setup_def Setup_returns [OF a])
  have 1: "Setup [rejecting_item] recording_fail CallerWarn fresh = Done rejecting_setup"
    by (simp add: s Setup_def Setup_returns [OF a])
  have items: "configItems rejecting_setup = [rejecting_item]"
    and ff: "failFunction rejecting_setup = recording_fail"
    by (simp_all add: s passes_def emit_def initializeFlags_frame)
  have ev: "filter is_callback (events (ext rejecting_setup)) = []"
    by (simp add: s passes_def pass_events_def emit_def initializeFlags_frame rejecting_item_def
        has_flag_def init_event_def default_event_def env_event_def bind_event_def
        fresh_def initial_state_def initial_world_def)
  have 3: "Load (\<lambda>s. Done (ext s)) rejecting_setup
       = Panic ''rejected: server.port'' (emit (EvValidate ''server.port'') rejecting_setup)"
    by (simp add: Load_def validate_def items) (simp add: rejecting_item_def fail_def)
  have 4: "filter is_callback (events (ext (state_of (Load (\<lambda>s. Done (ext s)) rejecting_setup)))) = []"
    by (simp add: 3 emit_def ev)
  have 5: "call_failFunction ''rejected: server.port'' rejecting_setup
       = Done (emit (EvFailFunc ''rejected: server.port'') rejecting_setup)"
    by (simp add: call_failFunction_def ff recording_fail_def)
  from 1 ff 3 4 5 show ?thesis by simp
qed

section \<open>Flags of supported kinds\<close>

text \<open>
  C4. For an item whose default has a supported kind, the body of the registration loop
  registers, under the effective flag name (\<^verbatim>\<open>FlagName\<close> if not empty, else \<^verbatim>\<open>Key\<close>), a
  flag whose default is the zero value of the type of the item's default: of the same
  kind, and independent of the item's own default. The registration is among the calls of
  \<^verbatim>\<open>initializeFlags\<close>, and when the item is the last supported item with this flag name,
  the flag set holds that flag under the name afterwards.
\<close>

theorem initializeFlags_registers_zero_default:
  assumes "item \<in> set (configItems s)" and "supported (type_of (Default item))"
  shows "initializeFlags_item item t =
           pflag_Var (effective_flag_name item) (zero_value (type_of (Default item)))
             (Description item) None t
       \<and> type_of (zero_value (type_of (Default item))) = type_of (Default item)
       \<and> EvRegisterFlag (effective_flag_name item) (zero_value (type_of (Default item)))
            (Description item) \<in> set (new_events s (initializeFlags dcp dsp s))
       \<and> (last_with effective_flag_name (effective_flag_name item)
             (filter (\<lambda>j. supported (type_of (Default j))) (configItems s)) = Some item \<longrightarrow>
           flags (ext (initializeFlags dcp dsp s)) (effective_flag_name item)
             = Some \<lparr>DefValue = zero_value (type_of (Default item)), Usage = Description item,
                     Changed = False, Text = [], Target = None\<rparr>)"
proof (intro conjI impI)
  show "initializeFlags_item item t =
           pflag_Var (effective_flag_name item) (zero_value (type_of (Default item)))
             (Description item) None t"
    by (rule initializeFlags_item_supported [OF assms(2)])
  show "type_of (zero_value (type_of (Default item))) = type_of (Default item)"
    by (rule zero_value_type)
  have "init_event (warnFunction s) item
          = EvRegisterFlag (effective_flag_name item) (zero_value (type_of (Default item)))
              (Description item)"
    using assms(2) by (simp add: init_event_def has_flag_def)
  then show "EvRegisterFlag (effective_flag_name item) (zero_value (type_of (Default item)))
            (Description item) \<in> set (new_events s (initializeFlags dcp dsp s))"
    using assms(1) by (force simp: new_events_initializeFlags registration_events_def image_iff)
  show "flags (ext (initializeFlags dcp dsp s)) (effective_flag_name item)
             = Some \<lparr>DefValue = zero_value (type_of (Default item)), Usage = Description item,
                     Changed = False, Text = [], Target = None\<rparr>"
    if "last_with effective_flag_name (effective_flag_name item)
             (filter (\<lambda>j. supported (type_of (Default j))) (configItems s)) = Some item"
    using that
    by (simp add: initializeFlags_frame flags_after_lookup has_flag_def [abs_def] item_flag_def)
qed

theorem initializeFlags_registers_zero_default_witness:
  "debug_item \<in> set (configItems (fresh\<lparr>configItems := [debug_item]\<rparr>))
   \<and> supported (type_of (Default debug_item))
   \<and> last_with effective_flag_name ''verbose''
        (filter (\<lambda>j. supported (type_of (Default j)))
           (configItems (fresh\<lparr>configItems := [debug_item]\<rparr>))) = Some debug_item
   \<and> initializeFlags_item debug_item fresh = pflag_Var ''verbose'' (GoBool False) ''log more'' None fresh
   \<and> EvRegisterFlag ''verbose'' (GoBool False) ''log more''
        \<in> set (new_events (fresh\<lparr>configItems := [debug_item]\<rparr>)
                 (initializeFlags [] [] (fresh\<lparr>configItems := [debug_item]\<rparr>)))
   \<and> flags (ext (initializeFlags [] [] (fresh\<lparr>configItems := [debug_item]\<rparr>))) ''verbose''
        = Some \<lparr>DefValue = GoBool False, Usage = ''log more'', Changed = False, Text = [],
                Target = None\<rparr>"
  using initializeFlags_registers_zero_default
    [of debug_item "fresh\<lparr>configItems := [debug_item]\<rparr>" fresh "[]" "[]"]
  by (simp add: debug_item_def effective_flag_name_def last_with_def)

section \<open>Items without a flag\<close>

text \<open>
  C5. For an item of the registry whose default has an unsupported kind, the body of the
  registration loop records the key in the no-flag set and calls the warn callback with
  the message naming the key, and nothing else. In a full setup the key is in the no-flag
  set afterwards; the warnings are exactly one per unsupported item, in order, each
  naming its key; the flags registered are the two path flags and one per supported item;
  the fail callback is not called; no bind-flag call is made for the key and its flag
  binding is as before. The flag-binding pass skips the key in any state in which the
  key is in the no-flag set. The process is not failed: the setup returns exactly when
  every argument of the command line names a registered flag, which is exactly when the
  setup of the registry without its unsupported items returns; it returns when there is
  no argument; and if it panics, the panic is the one of the parse of the command line.
\<close>

theorem unsupported_item_gets_no_flag:
  fixes items ff wfn dcp dsp s
  defines "R \<equiv> SetupWithOverriddenConfigPath items ff wfn dcp dsp s"
  assumes "item \<in> set items" and "\<not> supported (type_of (Default item))"
  shows "initializeFlags_item item t =
           call_warnFunction (warning_for (Key item))
             (t\<lparr>configItemKeysWithNoFlags := (configItemKeysWithNoFlags t)(Key item \<mapsto> True)\<rparr>)
       \<and> configItemKeysWithNoFlags (state_of R) (Key item) = Some True
       \<and> filter is_warning (new_events s (state_of R))
           = map (\<lambda>j. warn_event wfn (warning_for (Key j)))
               (filter (\<lambda>j. \<not> supported (type_of (Default j))) items)
       \<and> filter is_registration (new_events s (state_of R))
           = [EvRegisterFlag ''config-path'' (GoString dcp) ''config file path without file name'',
              EvRegisterFlag ''secrets-path'' (GoString dsp) ''secrets file path without file name'']
             @ map (\<lambda>j. EvRegisterFlag (effective_flag_name j) (zero_value (type_of (Default j)))
                          (Description j))
                 (filter (\<lambda>j. supported (type_of (Default j))) items)
       \<and> (\<forall>err. EvFailFunc err \<notin> set (new_events s (state_of R)))
       \<and> (\<forall>f. EvBindPFlag (Key item) f \<notin> set (new_events s (state_of R)))
       \<and> v_pflags (ext (state_of R)) (Key item) = v_pflags (ext s) (Key item)
       \<and> (configItemKeysWithNoFlags t (Key item) \<noteq> None \<longrightarrow>
            (\<forall>f. EvBindPFlag (Key item) f \<notin> set (new_events t (state_of (setupFlags t))))
            \<and> v_pflags (ext (state_of (setupFlags t))) (Key item) = v_pflags (ext t) (Key item))
       \<and> ((\<exists>s'. R = Done s')
            = (\<forall>a \<in> set (args (ext s)).
                 flags (ext (initializeFlags dcp dsp
                   (s\<lparr>configItems := items, failFunction := ff, warnFunction := wfn\<rparr>))) (fst a)
                   \<noteq> None))
       \<and> ((\<exists>s'. R = Done s')
            = (\<exists>s'. SetupWithOverriddenConfigPath
                      (filter (\<lambda>j. supported (type_of (Default j))) items) ff wfn dcp dsp s
                    = Done s'))
       \<and> (args (ext s) = [] \<longrightarrow> R = Done (state_of R))
       \<and> (\<forall>e s'. R = Panic e s' \<longrightarrow>
             pflag_Parse (initializeFlags dcp dsp
               (s\<lparr>configItems := items, failFunction := ff, warnFunction := wfn\<rparr>)) = Panic e s')"
proof (intro conjI impI allI)
  show "(\<exists>s'. R = Done s')
            = (\<forall>a \<in> set (args (ext s)).
                 flags (ext (initializeFlags dcp dsp
                   (s\<lparr>configItems := items, failFunction := ff, warnFunction := wfn\<rparr>))) (fst a)
                   \<noteq> None)"
    unfolding R_def by (rule Setup_Done_iff)
  show "(\<exists>s'. R = Done s')
            = (\<exists>s'. SetupWithOverriddenConfigPath
                      (filter (\<lambda>j. supported (type_of (Default j))) items) ff wfn dcp dsp s
                    = Done s')"
    unfolding R_def by (rule Setup_Done_without_unsupported)
  show "R = Done (state_of R)" if "args (ext s) = []"
    unfolding R_def by (simp add: Setup_returns [OF that])
  show "pflag_Parse (initializeFlags dcp dsp
               (s\<lparr>configItems := items, failFunction := ff, warnFunction := wfn\<rparr>)) = Panic e s'"
    if "R = Panic e s'" for e s'
    using that unfolding R_def by (rule Setup_Panic_is_parse)
  let ?nf = "noflags_after items (configItemKeysWithNoFlags s)"
  note sm = Setup_summary [where items = items and ff = ff and wfn = wfn and dcp = dcp
      and dsp = dsp and s = s, folded R_def]
  have nf: "?nf (Key item) = Some True"
    using assms(2,3) by (auto simp: noflags_after_lookup has_flag_def)
  let ?tail = "case R of Done s' \<Rightarrow> pass_events ?nf items | Panic e s' \<Rightarrow> []"
  have ev: "new_events s (state_of R) = registration_events wfn dcp dsp items @ [EvParse] @ ?tail"
    by (rule sm(2))
  have tail: "filter is_warning ?tail = []" "filter is_registration ?tail = []"
    "\<And>err. EvFailFunc err \<notin> set ?tail" "\<And>f. EvBindPFlag (Key item) f \<notin> set ?tail"
    using nf
    by (simp_all add: pass_events_no_warning pass_events_no_registration pass_events_no_fail
        pass_events_no_bind split: result.splits)
  show "initializeFlags_item item t =
           call_warnFunction (warning_for (Key item))
             (t\<lparr>configItemKeysWithNoFlags := (configItemKeysWithNoFlags t)(Key item \<mapsto> True)\<rparr>)"
    by (rule initializeFlags_item_unsupported [OF assms(3)])
  show "configItemKeysWithNoFlags (state_of R) (Key item) = Some True"
    using nf by (simp add: sm(1))
  show "filter is_warning (new_events s (state_of R))
           = map (\<lambda>j. warn_event wfn (warning_for (Key j)))
               (filter (\<lambda>j. \<not> supported (type_of (Default j))) items)"
    unfolding ev by (simp add: tail registration_events_def warnings_of_init_events)
  show "filter is_registration (new_events s (state_of R))
           = [EvRegisterFlag ''config-path'' (GoString dcp) ''config file path without file name'',
              EvRegisterFlag ''secrets-path'' (GoString dsp) ''secrets file path without file name'']
             @ map (\<lambda>j. EvRegisterFlag (effective_flag_name j) (zero_value (type_of (Default j)))
                          (Description j))
                 (filter (\<lambda>j. supported (type_of (Default j))) items)"
    unfolding ev by (simp add: tail registration_events_def registrations_of_init_events)
  show "EvFailFunc err \<notin> set (new_events s (state_of R))" for err
    unfolding ev using tail(3) [of err] registration_events_no_fail [of err wfn dcp dsp items]
    by simp
  show "EvBindPFlag (Key item) f \<notin> set (new_events s (state_of R))" for f
    unfolding ev
    using tail(4) [of f] registration_events_no_bind [of "Key item" f wfn dcp dsp items]
    by simp
  show "v_pflags (ext (state_of R)) (Key item) = v_pflags (ext s) (Key item)"
    using nf by (simp add: sm(3))
  show "EvBindPFlag (Key item) f \<notin> set (new_events t (state_of (setupFlags t)))"
    if "configItemKeysWithNoFlags t (Key item) \<noteq> None" for f
    by (rule setupFlags_skips(1) [OF that])
  show "v_pflags (ext (state_of (setupFlags t))) (Key item) = v_pflags (ext t) (Key item)"
    if "configItemKeysWithNoFlags t (Key item) \<noteq> None"
    by (rule setupFlags_skips(2) [OF that])
qed

theorem unsupported_item_gets_no_flag_witness:
  "no_validation_item ''some.key'' (GoStruct ''TopLevelStructuredConfig'' []) \<in> set readme_items
   \<and> \<not> supported (type_of (Default (no_validation_item ''some.key''
            (GoStruct ''TopLevelStructuredConfig'' []))))
   \<and> configItemKeysWithNoFlags
        (state_of (SetupWithOverriddenConfigPath readme_items PkgFail CallerWarn [] [] fresh))
        ''some.key'' = Some True
   \<and> filter is_warning (new_events fresh
        (state_of (SetupWithOverriddenConfigPath readme_items PkgFail CallerWarn [] [] fresh)))
       = [EvWarnFunc (''unsupported data type for config item some.key''
            @ '', cannot initialize command line argument, skipping this key'')]
   \<and> EvBindPFlag ''some.key'' (Some ''some.key'') \<notin> set (new_events fresh
        (state_of (SetupWithOverriddenConfigPath readme_items PkgFail CallerWarn [] [] fresh)))
   \<and> v_pflags (ext
        (state_of (SetupWithOverriddenConfigPath readme_items PkgFail CallerWarn [] [] fresh)))
        ''some.key'' = None
   \<and> args (ext fresh) = []
   \<and> SetupWithOverriddenConfigPath readme_items PkgFail CallerWarn [] [] fresh
       = Done (state_of (SetupWithOverriddenConfigPath readme_items PkgFail CallerWarn [] [] fresh))"
proof -
  have a: "args (ext fresh) = []"
    by (simp add: fresh_def initial_state_def initial_world_def)
  let ?item = "no_validation_item ''some.key'' (GoStruct ''TopLevelStructuredConfig'' [])"
  have h1: "?item \<in> set readme_items" by (simp add: readme_items_def)
  have h2: "\<not> supported (type_of (Default ?item))" by (simp add: no_validation_item_def)
  have k: "Key ?item = ''some.key''" by (simp add: no_validation_item_def)
  have w: "map (\<lambda>j. warn_event CallerWarn (warning_for (Key j)))
             (filter (\<lambda>j. \<not> supported (type_of (Default j))) readme_items)
           = [EvWarnFunc (''unsupported data type for config item some.key''
                @ '', cannot initialize command line argument, skipping this key'')]"
    by (simp add: readme_items_def no_validation_item_def warn_event_def warning_for_def)
  have p: "v_pflags (ext fresh) ''some.key'' = None"
    by (simp add: fresh_def initial_state_def initial_world_def)
  note th = unsupported_item_gets_no_flag [where items = readme_items and ff = PkgFail
      and wfn = CallerWarn and dcp = "[]" and dsp = "[]" and s = fresh and t = fresh,
      OF h1 h2, unfolded k w p]
  from th h1 h2 a show ?thesis by blast
qed

section \<open>Failing environment binds\<close>

text \<open>
  C6. bind-environment fails exactly when the key is empty. \<^verbatim>\<open>setupEnv\<close> makes one
  bind-environment call for every item of the registry, in order, whether or not an
  earlier call failed, and calls neither the fail nor the warn callback; the failing call
  for an item with an empty key leaves nothing behind but the record of the call.
\<close>

theorem env_bind_failure_ignored:
  "(fst (viper_BindEnv key name t) \<noteq> None) = (key = [])
   \<and> new_events s (setupEnv s)
       = map (\<lambda>j. EvBindEnv (Key j) (effective_env_name j)) (configItems s)
   \<and> filter is_callback (new_events s (setupEnv s)) = []
   \<and> (Key item = [] \<longrightarrow>
        setupEnv_item item t = emit (EvBindEnv [] (effective_env_name item)) t)"
proof -
  have 1: "(fst (viper_BindEnv key name t) \<noteq> None) = (key = [])"
    by (simp add: viper_BindEnv_def)
  have 2: "new_events s (setupEnv s)
       = map (\<lambda>j. EvBindEnv (Key j) (effective_env_name j)) (configItems s)"
    by (simp add: new_events_setupEnv env_event_def [abs_def])
  have 3: "filter is_callback (new_events s (setupEnv s)) = []"
    by (simp add: new_events_setupEnv is_callback_env_events)
  have 4: "setupEnv_item item t = emit (EvBindEnv [] (effective_env_name item)) t"
    if "Key item = []"
    using that by (simp add: setupEnv_item_frame emit_def env_event_def)
  from 1 2 3 4 show ?thesis by blast
qed

theorem env_bind_failure_ignored_witness:
  "Key empty_key_item = []
   \<and> fst (viper_BindEnv [] ''CONFIG_'' fresh) \<noteq> None
   \<and> new_events (fresh\<lparr>configItems := [empty_key_item, no_validation_item ''a'' (GoBool True)]\<rparr>)
        (setupEnv (fresh\<lparr>configItems := [empty_key_item, no_validation_item ''a'' (GoBool True)]\<rparr>))
       = [EvBindEnv [] ''CONFIG_'', EvBindEnv ''a'' ''CONFIG_a'']
   \<and> setupEnv_item empty_key_item fresh = emit (EvBindEnv [] ''CONFIG_'') fresh"
  using env_bind_failure_ignored
    [of "[]" "''CONFIG_''" fresh
        "fresh\<lparr>configItems := [empty_key_item, no_validation_item ''a'' (GoBool True)]\<rparr>"
        empty_key_item]
  by (simp add: empty_key_item_def no_validation_item_def effective_env_name_def
      spec_env_name_empty spec_env_name_a)

section \<open>The order of the passes\<close>

text \<open>
  C7. A full setup makes its calls in this order: the flag registrations, the parse of
  the command line, then set-default for every item, then bind-environment for every
  item, then bind-flag for every item whose key is not in the no-flag set, each pass in
  registry order. If the parse ends the process, none of the three passes has run. With
  an empty command line the setup returns.
\<close>

theorem setup_pass_order:
  "(case SetupWithOverriddenConfigPath items ff wfn dcp dsp s of
      Done s' \<Rightarrow>
        new_events s s' =
          registration_events wfn dcp dsp items @ [EvParse]
          @ map (\<lambda>j. EvSetDefault (Key j) (Default j)) items
          @ map (\<lambda>j. EvBindEnv (Key j) (effective_env_name j)) items
          @ map (\<lambda>j. EvBindPFlag (Key j) (Some (effective_flag_name j)))
              (filter (\<lambda>j. configItemKeysWithNoFlags s' (Key j) = None) items)
    | Panic e s' \<Rightarrow> new_events s s' = registration_events wfn dcp dsp items @ [EvParse])
   \<and> (args (ext s) = [] \<longrightarrow>
        (\<exists>s'. SetupWithOverriddenConfigPath items ff wfn dcp dsp s = Done s'))"
proof -
  let ?s1 = "s\<lparr>configItems := items, failFunction := ff, warnFunction := wfn\<rparr>"
  let ?s2 = "initializeFlags dcp dsp ?s1"
  note pf = pflag_Parse_frame [of ?s2]
  have ev2: "events (ext ?s2) = events (ext s) @ registration_events wfn dcp dsp items"
    by (simp add: initializeFlags_frame registration_events_def)
  have ev3: "events (ext (state_of (pflag_Parse ?s2)))
               = events (ext s) @ registration_events wfn dcp dsp items @ [EvParse]"
    using pf ev2 by simp
  have items3: "configItems (state_of (pflag_Parse ?s2)) = items"
    using pf by (simp add: initializeFlags_frame)
  have order: "(case SetupWithOverriddenConfigPath items ff wfn dcp dsp s of
      Done s' \<Rightarrow>
        new_events s s' =
          registration_events wfn dcp dsp items @ [EvParse]
          @ map (\<lambda>j. EvSetDefault (Key j) (Default j)) items
          @ map (\<lambda>j. EvBindEnv (Key j) (effective_env_name j)) items
          @ map (\<lambda>j. EvBindPFlag (Key j) (Some (effective_flag_name j)))
              (filter (\<lambda>j. configItemKeysWithNoFlags s' (Key j) = None) items)
    | Panic e s' \<Rightarrow> new_events s s' = registration_events wfn dcp dsp items @ [EvParse])"
  proof (cases "pflag_Parse ?s2")
    case (Panic e s3)
    then show ?thesis using ev3
      by (simp add: Setup_cases new_events_def)
  next
    case (Done s3)
    then show ?thesis using ev3 items3
      by (simp add: Setup_cases new_events_def passes_def pass_events_def default_event_def [abs_def]
          env_event_def [abs_def] bind_event_def [abs_def])
  qed
  have total: "\<exists>s'. SetupWithOverriddenConfigPath items ff wfn dcp dsp s = Done s'"
    if "args (ext s) = []"
  proof -
    have "args (ext ?s2) = []" using that by (simp add: initializeFlags_frame)
    then have "pflag_Parse ?s2 = Done (emit EvParse ?s2)"
      by (simp add: pflag_Parse_def emit_def)
    then show ?thesis by (simp add: Setup_cases)
  qed
  from order total show ?thesis by blast
qed

theorem setup_pass_order_witness:
  "args (ext fresh) = []
   \<and> new_events fresh
        (state_of (SetupWithOverriddenConfigPath readme_items PkgFail CallerWarn [] [] fresh))
       = [EvRegisterFlag ''config-path'' (GoString []) ''config file path without file name'',
          EvRegisterFlag ''secrets-path'' (GoString []) ''secrets file path without file name'',
          EvRegisterFlag ''server.address'' (GoString []) [],
          EvRegisterFlag ''server.port'' (GoUint 0) [],
          EvWarnFunc (warning_for ''some.key''),
          EvParse,
          EvSetDefault ''server.address'' (GoString []),
          EvSetDefault ''server.port'' (GoUint 8080),
          EvSetDefault ''some.key'' (GoStruct ''TopLevelStructuredConfig'' []),
          EvBindEnv ''server.address'' ''CONFIG_server_address'',
          EvBindEnv ''server.port'' ''CONFIG_server_port'',
          EvBindEnv ''some.key'' ''CONFIG_some_key'',
          EvBindPFlag ''server.address'' (Some ''server.address''),
          EvBindPFlag ''server.port'' (Some ''server.port'')]"
proof -
  have a: "args (ext fresh) = []"
    by (simp add: fresh_def initial_state_def initial_world_def)
  from setup_pass_order [where items = readme_items and ff = PkgFail and wfn = CallerWarn
      and dcp = "[]" and dsp = "[]" and s = fresh] a
  obtain s' where s': "SetupWithOverriddenConfigPath readme_items PkgFail CallerWarn [] [] fresh = Done s'"
    by blast
  have nf: "configItemKeysWithNoFlags s' = [''some.key'' \<mapsto> True]"
    using s' a
    by (simp add: Setup_cases pflag_Parse_def passes_def pass_events_def initializeFlags_frame emit_def
        readme_items_def no_validation_item_def has_flag_def fresh_def initial_state_def
        initial_world_def)
       (auto simp: fresh_def initial_state_def initial_world_def)
  from setup_pass_order [where items = readme_items and ff = PkgFail and wfn = CallerWarn
      and dcp = "[]" and dsp = "[]" and s = fresh]
  have ev: "new_events fresh s' =
          registration_events CallerWarn [] [] readme_items @ [EvParse]
          @ map (\<lambda>j. EvSetDefault (Key j) (Default j)) readme_items
          @ map (\<lambda>j. EvBindEnv (Key j) (effective_env_name j)) readme_items
          @ map (\<lambda>j. EvBindPFlag (Key j) (Some (effective_flag_name j)))
              (filter (\<lambda>j. configItemKeysWithNoFlags s' (Key j) = None) readme_items)"
    by (simp add: s')
  have "new_events fresh
          (state_of (SetupWithOverriddenConfigPath readme_items PkgFail CallerWarn [] [] fresh))
        = new_events fresh s'"
    by (simp add: s')
  also note ev
  also have "registration_events CallerWarn [] [] readme_items @ [EvParse]
          @ map (\<lambda>j. EvSetDefault (Key j) (Default j)) readme_items
          @ map (\<lambda>j. EvBindEnv (Key j) (effective_env_name j)) readme_items
          @ map (\<lambda>j. EvBindPFlag (Key j) (Some (effective_flag_name j)))
              (filter (\<lambda>j. configItemKeysWithNoFlags s' (Key j) = None) readme_items)
       = [EvRegisterFlag ''config-path'' (GoString []) ''config file path without file name'',
          EvRegisterFlag ''secrets-path'' (GoString []) ''secrets file path without file name'',
          EvRegisterFlag ''server.address'' (GoString []) [],
          EvRegisterFlag ''server.port'' (GoUint 0) [],
          EvWarnFunc (warning_for ''some.key''),
          EvParse,
          EvSetDefault ''server.address'' (GoString []),
          EvSetDefault ''server.port'' (GoUint 8080),
          EvSetDefault ''some.key'' (GoStruct ''TopLevelStructuredConfig'' []),
          EvBindEnv ''server.address'' ''CONFIG_server_address'',
          EvBindEnv ''server.port'' ''CONFIG_server_port'',
          EvBindEnv ''some.key'' ''CONFIG_some_key'',
          EvBindPFlag ''server.address'' (Some ''server.address''),
          EvBindPFlag ''server.port'' (Some ''server.port'')]"
    by (simp add: nf registration_events_def init_event_def has_flag_def
        effective_env_name_def effective_flag_name_def warn_event_def readme_items_def
        no_validation_item_def spec_env_name_server_address spec_env_name_server_port
        spec_env_name_some_key)
  finally show ?thesis using a by simp
qed

section \<open>Defaults-only setup\<close>

text \<open>
  C8. Defaults-only setup makes one set-default call per item, in order, with the item's
  default as it is, and no other call; it leaves the flags, the environment bindings, the
  flag bindings, the file layers and the no-flag set as they were. Afterwards the default
  held for a key is the default of the last item that declares it (of the item itself when
  the keys are distinct), and it is the resolved value of the key when no flag,
  environment variable or file gives the key a value.
\<close>

theorem defaults_only_setup:
  "new_events s (SetupDefaultsOnly items ff wfn s) = map (\<lambda>j. EvSetDefault (Key j) (Default j)) items
   \<and> flags (ext (SetupDefaultsOnly items ff wfn s)) = flags (ext s)
   \<and> v_env (ext (SetupDefaultsOnly items ff wfn s)) = v_env (ext s)
   \<and> v_pflags (ext (SetupDefaultsOnly items ff wfn s)) = v_pflags (ext s)
   \<and> v_secrets (ext (SetupDefaultsOnly items ff wfn s)) = v_secrets (ext s)
   \<and> v_config (ext (SetupDefaultsOnly items ff wfn s)) = v_config (ext s)
   \<and> configItemKeysWithNoFlags (SetupDefaultsOnly items ff wfn s) = configItemKeysWithNoFlags s
   \<and> (last_with Key (Key item) items = Some item \<longrightarrow>
        v_defaults (ext (SetupDefaultsOnly items ff wfn s)) (Key item) = Some (Default item))
   \<and> (last_with Key (Key item) items = Some item
        \<and> flag_value (ext s) (Key item) = None \<and> env_value (ext s) (Key item) = None
        \<and> v_secrets (ext s) (Key item) = None \<and> v_config (ext s) (Key item) = None \<longrightarrow>
        resolved (ext (SetupDefaultsOnly items ff wfn s)) (Key item) = Some (Default item))
   \<and> (distinct (map Key items) \<and> item \<in> set items \<longrightarrow> last_with Key (Key item) items = Some item)"
proof (intro conjI impI)
  let ?s' = "SetupDefaultsOnly items ff wfn s"
  show "new_events s ?s' = map (\<lambda>j. EvSetDefault (Key j) (Default j)) items"
    by (simp add: SetupDefaultsOnly_frame new_events_def default_event_def [abs_def])
  show "flags (ext ?s') = flags (ext s)" "v_env (ext ?s') = v_env (ext s)"
    "v_pflags (ext ?s') = v_pflags (ext s)" "v_secrets (ext ?s') = v_secrets (ext s)"
    "v_config (ext ?s') = v_config (ext s)"
    "configItemKeysWithNoFlags ?s' = configItemKeysWithNoFlags s"
    by (simp_all add: SetupDefaultsOnly_frame)
  have d: "v_defaults (ext ?s') (Key item) = Some (Default item)"
    if "last_with Key (Key item) items = Some item"
    using that by (simp add: SetupDefaultsOnly_frame defaults_after_lookup)
  show "v_defaults (ext ?s') (Key item) = Some (Default item)"
    if "last_with Key (Key item) items = Some item"
    using that by (rule d)
  have fv: "flag_value (ext ?s') k = flag_value (ext s) k" for k
    by (simp add: SetupDefaultsOnly_frame flag_value_def cong: option.case_cong)
  have ev: "env_value (ext ?s') k = env_value (ext s) k" for k
    by (simp add: SetupDefaultsOnly_frame env_value_def cong: option.case_cong)
  have sc: "v_secrets (ext ?s') = v_secrets (ext s)" "v_config (ext ?s') = v_config (ext s)"
    by (simp_all add: SetupDefaultsOnly_frame)
  show "resolved (ext ?s') (Key item) = Some (Default item)"
    if "last_with Key (Key item) items = Some item
        \<and> flag_value (ext s) (Key item) = None \<and> env_value (ext s) (Key item) = None
        \<and> v_secrets (ext s) (Key item) = None \<and> v_config (ext s) (Key item) = None"
    using that d by (simp add: resolved_def fv ev sc)
  show "last_with Key (Key item) items = Some item"
    if "distinct (map Key items) \<and> item \<in> set items"
    using that by (simp add: last_with_distinct)
qed

theorem defaults_only_setup_witness:
  "last_with Key ''server.port'' readme_items = Some (no_validation_item ''server.port'' (GoUint 8080))
   \<and> distinct (map Key readme_items)
   \<and> no_validation_item ''server.port'' (GoUint 8080) \<in> set readme_items
   \<and> flag_value (ext fresh) ''server.port'' = None \<and> env_value (ext fresh) ''server.port'' = None
   \<and> v_secrets (ext fresh) ''server.port'' = None \<and> v_config (ext fresh) ''server.port'' = None
   \<and> new_events fresh (SetupDefaultsOnly readme_items PkgFail PkgWarn fresh)
       = [EvSetDefault ''server.address'' (GoString []), EvSetDefault ''server.port'' (GoUint 8080),
          EvSetDefault ''some.key'' (GoStruct ''TopLevelStructuredConfig'' [])]
   \<and> v_defaults (ext (SetupDefaultsOnly readme_items PkgFail PkgWarn fresh)) ''server.port''
       = Some (GoUint 8080)
   \<and> resolved (ext (SetupDefaultsOnly readme_items PkgFail PkgWarn fresh)) ''server.port''
       = Some (GoUint 8080)"
  using defaults_only_setup
    [of fresh readme_items PkgFail PkgWarn "no_validation_item ''server.port'' (GoUint 8080)"]
  by (simp add: readme_items_def no_validation_item_def last_with_def fresh_def
      initial_state_def initial_world_def flag_value_def env_value_def)

section \<open>The registry is never written\<close>

text \<open>
  C9, as stated, fails: after a full setup the item of the registry whose \<^verbatim>\<open>EnvName\<close>
  was empty still has an empty \<^verbatim>\<open>EnvName\<close>, although the derived name is bound.
\<close>

theorem envName_backfill_counterexample:
  "map EnvName (configItems (state_of
       (Setup [no_validation_item ''server.address'' (GoString [])] PkgFail PkgWarn fresh))) = [[]]
   \<and> map EnvName (configItems (state_of
       (Setup [no_validation_item ''server.address'' (GoString [])] PkgFail PkgWarn fresh)))
       \<noteq> [''CONFIG_server_address'']
   \<and> v_env (ext (state_of
       (Setup [no_validation_item ''server.address'' (GoString [])] PkgFail PkgWarn fresh)))
       ''server.address'' = Some ''CONFIG_server_address''"
  by (simp add: Setup_def Setup_cases pflag_Parse_def passes_def pass_events_def initializeFlags_frame emit_def
      no_validation_item_def fresh_def initial_state_def initial_world_def
      effective_env_name_def spec_env_name_server_address)

text \<open>
  C9, amended. No operation of the resolver changes any field of any item: after a setup
  the registry is the list of items the caller passed, and every other operation leaves
  the registry as it was. For an item whose \<^verbatim>\<open>EnvName\<close> is empty the derived name is
  written to the loop's own copy of the item only, which is what bind-environment
  receives.
\<close>

theorem registry_never_mutated:
  "configItems (SetupDefaultsOnly items ff wfn s) = items
   \<and> configItems (state_of (SetupWithOverriddenConfigPath items ff wfn dcp dsp s)) = items
   \<and> configItems (state_of (Setup items ff wfn s)) = items
   \<and> configItems (state_of (Load performLoad s)) = configItems s
   \<and> configItems (initializeFlags dcp dsp s) = configItems s
   \<and> configItems (setupDefaults s) = configItems s
   \<and> configItems (setupEnv s) = configItems s
   \<and> configItems (state_of (setupFlags s)) = configItems s
   \<and> configItems (state_of (validate s)) = configItems s
   \<and> new_events s (setupEnv s)
       = map (\<lambda>j. EvBindEnv (Key j)
                (if EnvName j = [] then spec_env_name (Key j) else EnvName j)) (configItems s)"
proof (intro conjI)
  show "new_events s (setupEnv s)
       = map (\<lambda>j. EvBindEnv (Key j)
                (if EnvName j = [] then spec_env_name (Key j) else EnvName j)) (configItems s)"
    by (simp add: new_events_setupEnv env_event_def [abs_def] effective_env_name_def)
  show "configItems (SetupDefaultsOnly items ff wfn s) = items"
    by (simp add: SetupDefaultsOnly_frame)
  show "configItems (state_of (SetupWithOverriddenConfigPath items ff wfn dcp dsp s)) = items"
    by (rule Setup_configItems)
  show "configItems (state_of (Setup items ff wfn s)) = items"
    by (simp add: Setup_def Setup_configItems)
  show "configItems (state_of (Load performLoad s)) = configItems s"
    by (cases "performLoad s")
       (simp_all add: Load_def validate_def validate_loop_frame validation_result_configItems)
  show "configItems (initializeFlags dcp dsp s) = configItems s"
    by (simp add: initializeFlags_frame)
  show "configItems (setupDefaults s) = configItems s"
    by (simp add: setupDefaults_frame)
  show "configItems (setupEnv s) = configItems s"
    by (simp add: setupEnv_frame)
  show "configItems (state_of (setupFlags s)) = configItems s"
    unfolding setupFlags_def by (rule flag_pass_configItems) (rule setupFlags_loop_flag_pass)
  show "configItems (state_of (validate s)) = configItems s"
    by (simp add: validate_frame validation_result_configItems)
qed

section \<open>The no-flag set over the life of the process\<close>

text \<open>
  C10. A key that is in the no-flag set stays in it through any sequence of setup and
  load calls; a later full setup, whatever registry it is given, makes no bind-flag call
  for the key and leaves the key's flag binding as it was, and so does the flag-binding
  pass on its own.
\<close>

theorem noflag_set_never_cleared:
  assumes "configItemKeysWithNoFlags s k \<noteq> None"
  shows "configItemKeysWithNoFlags (run ops s) k \<noteq> None
       \<and> (\<forall>f. EvBindPFlag k f \<notin> set (new_events (run ops s)
              (state_of (SetupWithOverriddenConfigPath items ff wfn dcp dsp (run ops s)))))
       \<and> v_pflags (ext (state_of (SetupWithOverriddenConfigPath items ff wfn dcp dsp (run ops s)))) k
           = v_pflags (ext (run ops s)) k
       \<and> (\<forall>f. EvBindPFlag k f \<notin> set (new_events (run ops s) (state_of (setupFlags (run ops s)))))"
proof (intro conjI allI)
  let ?t = "run ops s"
  let ?R = "SetupWithOverriddenConfigPath items ff wfn dcp dsp ?t"
  let ?nf = "noflags_after items (configItemKeysWithNoFlags ?t)"
  show t: "configItemKeysWithNoFlags ?t k \<noteq> None"
    by (rule run_keeps_noflag [OF assms])
  then have nf: "?nf k \<noteq> None" by (rule noflags_after_keeps)
  note sm = Setup_summary [where items = items and ff = ff and wfn = wfn and dcp = dcp
      and dsp = dsp and s = ?t]
  show "EvBindPFlag k f \<notin> set (new_events ?t (state_of ?R))" for f
    using nf registration_events_no_bind [of k f wfn dcp dsp items]
    by (simp add: sm(2) pass_events_no_bind split: result.splits)
  show "v_pflags (ext (state_of ?R)) k = v_pflags (ext ?t) k"
    by (rule sm(3) [OF nf])
  show "EvBindPFlag k f \<notin> set (new_events ?t (state_of (setupFlags ?t)))" for f
    by (rule setupFlags_skips(1) [OF t])
qed

theorem noflag_set_never_cleared_witness:
  "configItemKeysWithNoFlags was_struct ''some.key'' \<noteq> None
   \<and> configItemKeysWithNoFlags
        (run [OpLoad (\<lambda>s. Done (ext s)),
              OpSetupDefaultsOnly [no_validation_item ''some.key'' (GoString [])] PkgFail CallerWarn]
           was_struct) ''some.key'' \<noteq> None
   \<and> supported (type_of (Default (no_validation_item ''some.key'' (GoString []))))
   \<and> EvBindPFlag ''some.key'' (Some ''some.key'')
        \<notin> set (new_events
                 (run [OpLoad (\<lambda>s. Done (ext s)),
                       OpSetupDefaultsOnly [no_validation_item ''some.key'' (GoString [])] PkgFail CallerWarn]
                    was_struct)
                 (state_of (SetupWithOverriddenConfigPath
                    [no_validation_item ''some.key'' (GoString [])] PkgFail CallerWarn [] []
                    (run [OpLoad (\<lambda>s. Done (ext s)),
                          OpSetupDefaultsOnly [no_validation_item ''some.key'' (GoString [])] PkgFail CallerWarn]
                       was_struct))))"
proof -
  have h: "configItemKeysWithNoFlags was_struct ''some.key'' \<noteq> None"
    by (simp add: was_struct_def Setup_def Setup_summary(1) no_validation_item_def has_flag_def)
  have sup: "supported (type_of (Default (no_validation_item ''some.key'' (GoString []))))"
    by (simp add: no_validation_item_def)
  from noflag_set_never_cleared [OF h] h sup show ?thesis by blast
qed

end
